theory Spec2Isabelle
  imports Complex_Main "HOL-Library.Word"
begin

section \<open>The flight controller plugin of gymfc: data model\<close>

text \<open>
  The embedding follows \<^verbatim>\<open>FlightControllerPlugin.cpp\<close>. The plugin object
  (\<^verbatim>\<open>this\<close>) is a record that every member function takes and returns.
  Protobuf \<^verbatim>\<open>float\<close> and \<^verbatim>\<open>double\<close> fields are read as the real numbers
  they denote (a NaN or an infinity is not a value of the model); a \<^verbatim>\<open>double\<close> that
  the code stores into a \<^verbatim>\<open>float\<close> field is rounded to the nearest 32-bit float.
  Simulation time is counted in physics steps. Repeated fields are lists; a read or a write at an index
  outside the field is a fault, written out as \<open>None\<close>.
\<close>

datatype Sensors = IMU | ESC

datatype WorldControl = STEP | RESET

datatype StatusCode = OK | ERROR

record Action =
  world_control :: WorldControl
  motor :: "real list"

record State =
  sim_time :: nat
  status_code :: StatusCode
  imu_angular_velocity_rpy :: "real list"
  imu_orientation_quat :: "real list"
  imu_linear_acceleration_xyz :: "real list"
  esc_motor_angular_velocity :: "real list"
  esc_temperature :: "real list"
  esc_current :: "real list"
  esc_voltage :: "real list"

text \<open>
  The messages handed to the two sensor callbacks. The vectors and the quaternion of the
  IMU message are Gazebo's, with \<^verbatim>\<open>double\<close> components; the fields of the ESC message
  are taken to be \<^verbatim>\<open>float\<close>, as the fields of the state they are copied to (the
  message definitions are not among the sources).
\<close>

record Imu =
  angular_velocity_x :: real
  angular_velocity_y :: real
  angular_velocity_z :: real
  orientation_w :: real
  orientation_x :: real
  orientation_y :: real
  orientation_z :: real
  linear_acceleration_x :: real
  linear_acceleration_y :: real
  linear_acceleration_z :: real

record EscSensor =
  esc_id :: "32 word"
  motor_speed :: real
  temperature :: real
  current :: real
  voltage :: real

datatype SensorMsg = ImuMsg Imu | EscMsg EscSensor

text \<open>
  The effects that leave the plugin, in the order in which the code performs them:
  diagnostics, topic subscriptions, the start of the control-loop thread, the arming of
  the callback counter, the publication of a motor command, a call of
  \<^verbatim>\<open>world->Step(1)\<close>, a soft reset, the entry into the wait for the sensors, and a
  datagram with a serialised \<open>State\<close>.
\<close>

datatype event =
    EvGzerr string
  | EvSubscribeImu
  | EvSubscribeEsc nat
  | EvAdvertise
  | EvSetPaused
  | EvStartLoopThread
  | EvArm int
  | EvPublish "real list"
  | EvStep
  | EvSoftReset
  | EvAwait
  | EvSend State

text \<open>
  The simulated world: \<open>simTime\<close> counts the physics steps since the last
  \<^verbatim>\<open>ResetTime\<close> (simulation time in units of the step size), \<open>steps\<close> counts every
  call of \<^verbatim>\<open>Step(1)\<close> since the world exists.
\<close>

record World =
  simTime :: nat
  steps :: nat
  paused :: bool

record Plugin =
  world :: World
  supportedSensors :: "Sensors list"
  numActuators :: int
  numSensorCallbacks :: int
  sensorCallbackCount :: int
  callbackCondition :: bool
  digitalTwinSDF :: string
  state :: State
  action :: Action
  trace :: "event list"

text \<open>
  \<open>callbackCondition\<close> is the condition variable, of which the model keeps whether the
  control-loop thread is blocked in \<^verbatim>\<open>callbackCondition.wait\<close> and has not been
  notified since.
\<close>

text \<open>A default-constructed protobuf message: scalars zero, repeated fields empty.\<close>

definition State_default :: State where
  "State_default =
     \<lparr>sim_time = 0, status_code = OK, imu_angular_velocity_rpy = [],
      imu_orientation_quat = [], imu_linear_acceleration_xyz = [],
      esc_motor_angular_velocity = [], esc_temperature = [], esc_current = [],
      esc_voltage = []\<rparr>"

definition Action_default :: Action where
  "Action_default = \<lparr>world_control = STEP, motor = []\<rparr>"

text \<open>
  Modelled from the spec: the members of the plugin are declared in
  \<^verbatim>\<open>FlightControllerPlugin.hh\<close>, which is not among the sources, and the
  constructor in the source file assigns none of the counters. The spec calls the
  callback budget an integer that is computed once as a sum over the enabled sensors, so
  the counters of a new plugin are taken to be 0.
\<close>

definition FlightControllerPlugin_new :: Plugin where
  "FlightControllerPlugin_new =
     \<lparr>world = \<lparr>simTime = 0, steps = 0, paused = False\<rparr>,
      supportedSensors = [], numActuators = 0, numSensorCallbacks = 0,
      sensorCallbackCount = 0, callbackCondition = False, digitalTwinSDF = [],
      state = State_default,
      action = Action_default, trace = []\<rparr>"

definition emit :: "event \<Rightarrow> Plugin \<Rightarrow> Plugin" where
  "emit e p = p\<lparr>trace := trace p @ [e]\<rparr>"

subsection \<open>Repeated fields\<close>

text \<open>
  \<^verbatim>\<open>field(i)\<close> and \<^verbatim>\<open>set_field(i, v)\<close> of a repeated protobuf field have no
  bounds check in the source; outside the field they are undefined behaviour, here
  \<open>None\<close>.
\<close>

definition rf_get :: "'a list \<Rightarrow> nat \<Rightarrow> 'a option" where
  "rf_get xs i = (if i < length xs then Some (xs ! i) else None)"

definition rf_set :: "'a list \<Rightarrow> nat \<Rightarrow> 'a \<Rightarrow> 'a list option" where
  "rf_set xs i v = (if i < length xs then Some (xs[i := v]) else None)"

subsection \<open>Machine numbers\<close>

text \<open>
  The counters are taken to be \<^verbatim>\<open>int\<close>, the type of what \<^verbatim>\<open>std::stoi\<close> returns
  (their declarations are in the header). \<open>int32\<close> is the value a 32-bit \<^verbatim>\<open>int\<close>
  holds after an addition whose exact result is \<open>x\<close>: the result itself in the range of
  the type, and the wrapped value beyond it. It is written out where the code adds what
  the configuration supplies; the negation that arms the counter and the increments of
  the callbacks are written exactly, and the statements about the barrier name the range
  in which an \<^verbatim>\<open>int\<close> holds them.
\<close>

definition int32 :: "int \<Rightarrow> int" where
  "int32 x = (x + 2147483648) mod 4294967296 - 2147483648"

text \<open>
  The conversion of a \<^verbatim>\<open>double\<close> to \<^verbatim>\<open>float\<close>: round to the nearest multiple
  of the unit in the last place of the 24-bit significand, ties to the even multiple.
  \<open>float_exponent a\<close> is the exponent \<open>e\<close> with \<open>2 powi e \<le> a < 2 powi (e + 1)\<close>,
  kept between the least and the greatest exponent of the format. Beyond the range of
  the format the source stores an infinity; the model keeps a finite value of at least
  \<open>2 powi 127\<close>, which compares with the bound of the code as the infinity does.
\<close>

definition round_even :: "real \<Rightarrow> int" where
  "round_even r =
     (let f = \<lfloor>r\<rfloor> in
      if r - of_int f < 1 / 2 then f
      else if 1 / 2 < r - of_int f then f + 1
      else if even f then f else f + 1)"

definition float_exponent :: "real \<Rightarrow> int" where
  "float_exponent a =
     (case find (\<lambda>e. a < 2 powi (e + 1)) [- 126..126] of None \<Rightarrow> 127 | Some e \<Rightarrow> e)"

definition to_float :: "real \<Rightarrow> real" where
  "to_float x =
     (let u = 2 powi (float_exponent \<bar>x\<bar> - 23) in of_int (round_even (x / u)) * u)"

section \<open>The sensor-completion barrier\<close>

text \<open>
  \<^verbatim>\<open>CalculateCallbackCount\<close>: one pass over \<^verbatim>\<open>supportedSensors\<close>, adding to
  \<^verbatim>\<open>numSensorCallbacks\<close> 1 for an IMU entry and \<^verbatim>\<open>numActuators\<close> for an ESC
  entry, in \<^verbatim>\<open>int\<close> arithmetic.
\<close>

fun CalculateCallbackCount_loop :: "Sensors list \<Rightarrow> Plugin \<Rightarrow> Plugin" where
  "CalculateCallbackCount_loop [] p = p"
| "CalculateCallbackCount_loop (sensor # rest) p =
     CalculateCallbackCount_loop rest
       (case sensor of
          IMU \<Rightarrow> p\<lparr>numSensorCallbacks := int32 (numSensorCallbacks p + 1)\<rparr>
        | ESC \<Rightarrow>
            p\<lparr>numSensorCallbacks := int32 (numSensorCallbacks p + numActuators p)\<rparr>)"

definition CalculateCallbackCount :: "Plugin \<Rightarrow> Plugin" where
  "CalculateCallbackCount p = CalculateCallbackCount_loop (supportedSensors p) p"

text \<open>\<^verbatim>\<open>SensorEnabled\<close>: membership in the list.\<close>

fun SensorEnabled_loop :: "Sensors list \<Rightarrow> Sensors \<Rightarrow> bool" where
  "SensorEnabled_loop [] s = False"
| "SensorEnabled_loop (sensor # rest) s =
     (if sensor = s then True else SensorEnabled_loop rest s)"

definition SensorEnabled :: "Plugin \<Rightarrow> Sensors \<Rightarrow> bool" where
  "SensorEnabled p s = SensorEnabled_loop (supportedSensors p) s"

text \<open>\<^verbatim>\<open>ResetCallbackCount\<close>, under the callback mutex.\<close>

definition ResetCallbackCount :: "Plugin \<Rightarrow> Plugin" where
  "ResetCallbackCount p =
     emit (EvArm (-1 * numSensorCallbacks p))
       (p\<lparr>sensorCallbackCount := -1 * numSensorCallbacks p\<rparr>)"

text \<open>
  \<^verbatim>\<open>notify_all\<close> releases whoever is blocked on the condition variable.
\<close>

definition notify_all :: "Plugin \<Rightarrow> Plugin" where
  "notify_all p = p\<lparr>callbackCondition := False\<rparr>"

text \<open>
  \<^verbatim>\<open>EscSensorCallback\<close>, with the mutex held: four writes at index \<^verbatim>\<open>id\<close>, then
  the counter and \<^verbatim>\<open>notify_all\<close>. The \<^verbatim>\<open>uint32_t\<close> id is the index as it stands.
\<close>

definition EscSensorCallback :: "EscSensor \<Rightarrow> Plugin \<Rightarrow> Plugin option" where
  "EscSensorCallback m p =
     (let i = unat (esc_id m); st = state p in
      (case rf_set (esc_motor_angular_velocity st) i (motor_speed m) of None \<Rightarrow> None
       | Some v \<Rightarrow>
      (case rf_set (esc_temperature st) i (temperature m) of None \<Rightarrow> None
       | Some t \<Rightarrow>
      (case rf_set (esc_current st) i (current m) of None \<Rightarrow> None
       | Some c \<Rightarrow>
      (case rf_set (esc_voltage st) i (voltage m) of None \<Rightarrow> None
       | Some u \<Rightarrow>
         Some (notify_all
                 (p\<lparr>state := st\<lparr>esc_motor_angular_velocity := v, esc_temperature := t,
                                 esc_current := c, esc_voltage := u\<rparr>,
                   sensorCallbackCount := sensorCallbackCount p + 1\<rparr>)))))))"

text \<open>
  \<^verbatim>\<open>ImuCallback\<close>, with the mutex held: indices 0 to 2 of the angular velocity, 0
  to 3 of the orientation, 0 to 2 of the linear acceleration, each \<^verbatim>\<open>double\<close> of
  the message narrowed to the \<^verbatim>\<open>float\<close> of the field, then the counter and
  \<^verbatim>\<open>notify_all\<close>.
\<close>

fun rf_set_all :: "'a list \<Rightarrow> nat \<Rightarrow> 'a list \<Rightarrow> 'a list option" where
  "rf_set_all xs i [] = Some xs"
| "rf_set_all xs i (v # vs) =
     (case rf_set xs i v of None \<Rightarrow> None | Some ys \<Rightarrow> rf_set_all ys (Suc i) vs)"

definition ImuCallback :: "Imu \<Rightarrow> Plugin \<Rightarrow> Plugin option" where
  "ImuCallback m p =
     (let st = state p in
      (case rf_set_all (imu_angular_velocity_rpy st) 0
              [to_float (angular_velocity_x m), to_float (angular_velocity_y m),
               to_float (angular_velocity_z m)] of
         None \<Rightarrow> None
       | Some av \<Rightarrow>
      (case rf_set_all (imu_orientation_quat st) 0
              [to_float (orientation_w m), to_float (orientation_x m),
               to_float (orientation_y m), to_float (orientation_z m)] of
         None \<Rightarrow> None
       | Some q \<Rightarrow>
      (case rf_set_all (imu_linear_acceleration_xyz st) 0
              [to_float (linear_acceleration_x m), to_float (linear_acceleration_y m),
               to_float (linear_acceleration_z m)] of
         None \<Rightarrow> None
       | Some la \<Rightarrow>
         Some (notify_all
                 (p\<lparr>state := st\<lparr>imu_angular_velocity_rpy := av, imu_orientation_quat := q,
                                 imu_linear_acceleration_xyz := la\<rparr>,
                   sensorCallbackCount := sensorCallbackCount p + 1\<rparr>))))))"

fun callback :: "SensorMsg \<Rightarrow> Plugin \<Rightarrow> Plugin option" where
  "callback (ImuMsg m) p = ImuCallback m p"
| "callback (EscMsg m) p = EscSensorCallback m p"

text \<open>\<^verbatim>\<open>SendState\<close>: one datagram with the serialised state.\<close>

definition SendState :: "Plugin \<Rightarrow> Plugin" where
  "SendState p = emit (EvSend (state p)) p"

text \<open>The condition of the loop around \<^verbatim>\<open>callbackCondition.wait\<close>.\<close>

definition wait_condition :: "Plugin \<Rightarrow> bool" where
  "wait_condition p \<longleftrightarrow> sensorCallbackCount p < 0"

fun sends :: "event list \<Rightarrow> nat" where
  "sends [] = 0"
| "sends (EvSend st # es) = Suc (sends es)"
| "sends (e # es) = sends es"

section \<open>Sensor state store\<close>

text \<open>
  The loops \<^verbatim>\<open>for (unsigned int i = 0; i < this->numActuators; i++)\<close>. The count comes
  from \<^verbatim>\<open>std::stoi\<close>; below 0 the comparison with the unsigned index makes the loop
  run past the end of every repeated field, which is a fault.
\<close>

definition actuator_indices :: "int \<Rightarrow> nat list option" where
  "actuator_indices n = (if n < 0 then None else Some [0..<nat n])"

text \<open>\<^verbatim>\<open>InitState\<close>: every \<^verbatim>\<open>add_\<close> appends one entry to its field.\<close>

definition InitState :: "Plugin \<Rightarrow> Plugin option" where
  "InitState p =
     (case actuator_indices (numActuators p) of None \<Rightarrow> None
      | Some idx \<Rightarrow>
        let st = state p in
        Some (p\<lparr>state := st
          \<lparr>imu_angular_velocity_rpy := imu_angular_velocity_rpy st @ replicate 3 1,
           imu_linear_acceleration_xyz := imu_linear_acceleration_xyz st @ replicate 3 0,
           imu_orientation_quat := imu_orientation_quat st @ replicate 4 0,
           esc_motor_angular_velocity := esc_motor_angular_velocity st @ map (\<lambda>i. 100) idx,
           esc_temperature := esc_temperature st @ map (\<lambda>i. 10000) idx,
           esc_current := esc_current st @ map (\<lambda>i. - 1) idx,
           esc_voltage := esc_voltage st @ map (\<lambda>i. - 1) idx\<rparr>\<rparr>))"

section \<open>The simulated world\<close>

text \<open>
  What the plugin is given when it runs: the protobuf decoder (its result flag and the
  message it leaves in \<^verbatim>\<open>this->action\<close>), and the sensor messages that the
  simulator's plugins publish for the \<open>n\<close>-th call of \<^verbatim>\<open>Step(1)\<close>. The callbacks for
  a step run before the control loop looks at the state again: this is the synchronous
  simulator of the spec's test double.
\<close>

record RunEnv =
  ParseFromString :: "8 word list \<Rightarrow> bool \<times> Action"
  sensor_replies :: "nat \<Rightarrow> SensorMsg list"

definition world_Step :: "Plugin \<Rightarrow> Plugin" where
  "world_Step p =
     emit EvStep
       (p\<lparr>world := (world p)\<lparr>simTime := simTime (world p) + 1,
                               steps := steps (world p) + 1\<rparr>\<rparr>)"

text \<open>\<^verbatim>\<open>SoftReset\<close>: time back to 0; entity poses and physics states are not modelled.\<close>

definition SoftReset :: "Plugin \<Rightarrow> Plugin" where
  "SoftReset p = emit EvSoftReset (p\<lparr>world := (world p)\<lparr>simTime := 0\<rparr>\<rparr>)"

fun deliver :: "SensorMsg list \<Rightarrow> Plugin \<Rightarrow> Plugin option" where
  "deliver [] p = Some p"
| "deliver (m # ms) p =
     (case callback m p of None \<Rightarrow> None | Some p' \<Rightarrow> deliver ms p')"

section \<open>The step controller\<close>

datatype outcome = Skipped | Replied | Blocked | Fault | Settled | OutOfFuel

text \<open>
  \<^verbatim>\<open>double error = 0.017\<close>. The comparison is between a \<^verbatim>\<open>float\<close> reading and
  this \<^verbatim>\<open>double\<close>; no \<^verbatim>\<open>float\<close> lies between 17/1000 and the nearest
  \<^verbatim>\<open>double\<close>, so the comparison with 17/1000 gives the same answer.
\<close>

definition error :: real where
  "error = 17 / 1000"

text \<open>
  The condition of the \<^verbatim>\<open>if\<close> in \<^verbatim>\<open>FlushSensors\<close>: \<open>Some True\<close> means one
  more tick. \<open>or_else\<close> is \<^verbatim>\<open>||\<close>, which does not evaluate its right operand when
  the left one is true.
\<close>

definition exceeds :: "real list \<Rightarrow> nat \<Rightarrow> bool option" where
  "exceeds rpy i = (case rf_get rpy i of None \<Rightarrow> None | Some v \<Rightarrow> Some (\<bar>v\<bar> > error))"

definition or_else :: "bool option \<Rightarrow> bool option \<Rightarrow> bool option" where
  "or_else a b = (case a of None \<Rightarrow> None | Some True \<Rightarrow> Some True | Some False \<Rightarrow> b)"

definition unsettled :: "State \<Rightarrow> bool option" where
  "unsettled st =
     (let rpy = imu_angular_velocity_rpy st in
      if length rpy < 2 then Some True
      else or_else (exceeds rpy 0) (or_else (exceeds rpy 1) (exceeds rpy 2)))"

text \<open>
  The same condition, negated, on the angular velocity of an IMU message: as the message
  has it, and as \<^verbatim>\<open>ImuCallback\<close> stores it.
\<close>

definition within_error :: "Imu \<Rightarrow> bool" where
  "within_error m \<longleftrightarrow>
     \<not> (\<bar>angular_velocity_x m\<bar> > error \<or> \<bar>angular_velocity_y m\<bar> > error
        \<or> \<bar>angular_velocity_z m\<bar> > error)"

definition stored_within_error :: "Imu \<Rightarrow> bool" where
  "stored_within_error m \<longleftrightarrow>
     \<not> (\<bar>to_float (angular_velocity_x m)\<bar> > error
        \<or> \<bar>to_float (angular_velocity_y m)\<bar> > error
        \<or> \<bar>to_float (angular_velocity_z m)\<bar> > error)"

text \<open>
  The sizes that \<^verbatim>\<open>InitState\<close> gives the fields of the state, for \<open>n\<close> actuators,
  and sensor messages whose ESC ids are below \<open>n\<close>.
\<close>

definition state_sized :: "nat \<Rightarrow> State \<Rightarrow> bool" where
  "state_sized n st \<longleftrightarrow>
     length (imu_angular_velocity_rpy st) = 3 \<and> length (imu_orientation_quat st) = 4
     \<and> length (imu_linear_acceleration_xyz st) = 3
     \<and> length (esc_motor_angular_velocity st) = n \<and> length (esc_temperature st) = n
     \<and> length (esc_current st) = n \<and> length (esc_voltage st) = n"

fun esc_in_range :: "nat \<Rightarrow> SensorMsg list \<Rightarrow> bool" where
  "esc_in_range n [] = True"
| "esc_in_range n (ImuMsg m # ms) = esc_in_range n ms"
| "esc_in_range n (EscMsg m # ms) = (unat (esc_id m) < n \<and> esc_in_range n ms)"

text \<open>The IMU messages among the sensor messages of a tick, in their order.\<close>

fun imu_msgs :: "SensorMsg list \<Rightarrow> Imu list" where
  "imu_msgs [] = []"
| "imu_msgs (ImuMsg m # ms) = m # imu_msgs ms"
| "imu_msgs (EscMsg m # ms) = imu_msgs ms"

text \<open>
  The \<^verbatim>\<open>while (1)\<close> of \<^verbatim>\<open>FlushSensors\<close>, with fuel: the loop of the source has
  no bound of its own.
\<close>

fun FlushSensors_loop :: "RunEnv \<Rightarrow> nat \<Rightarrow> Plugin \<Rightarrow> outcome \<times> Plugin" where
  "FlushSensors_loop env 0 p = (OutOfFuel, p)"
| "FlushSensors_loop env (Suc fuel) p =
     (case unsettled (state p) of
        None \<Rightarrow> (Fault, p)
      | Some False \<Rightarrow> (Settled, p)
      | Some True \<Rightarrow>
          let p1 = world_Step p in
          (case deliver (sensor_replies env (steps (world p1))) p1 of
             None \<Rightarrow> (Fault, p1)
           | Some p2 \<Rightarrow> FlushSensors_loop env fuel (SoftReset p2)))"

definition FlushSensors :: "RunEnv \<Rightarrow> nat \<Rightarrow> Plugin \<Rightarrow> outcome \<times> Plugin" where
  "FlushSensors env fuel p = FlushSensors_loop env fuel (SoftReset p)"

text \<open>
  \<^verbatim>\<open>ReceiveAction\<close>: \<open>None\<close> is a \<^verbatim>\<open>recvfrom\<close> that returned a negative size
  (nothing pending, or an error); a datagram is cut to the 1024 bytes of the buffer. The
  result of \<^verbatim>\<open>ParseFromString\<close> is not looked at.
\<close>

definition ReceiveAction :: "RunEnv \<Rightarrow> 8 word list option \<Rightarrow> Plugin \<Rightarrow> bool \<times> Plugin" where
  "ReceiveAction env recv p =
     (case recv of
        None \<Rightarrow> (False, p)
      | Some dgram \<Rightarrow> (True, p\<lparr>action := snd (ParseFromString env (take 1024 dgram))\<rparr>))"

definition stamp :: "Plugin \<Rightarrow> Plugin" where
  "stamp p = p\<lparr>state := (state p)\<lparr>sim_time := simTime (world p), status_code := OK\<rparr>\<rparr>"

text \<open>
  The loop \<^verbatim>\<open>while (sensorCallbackCount < 0) callbackCondition.wait(lock)\<close> and
  the \<^verbatim>\<open>SendState\<close> after it, as far as the thread gets while it holds the mutex:
  with the condition true it blocks in \<^verbatim>\<open>wait\<close>, which gives the mutex up;
  otherwise it leaves the loop and sends the state.
\<close>

definition wait_loop :: "Plugin \<Rightarrow> outcome \<times> Plugin" where
  "wait_loop p =
     (if wait_condition p then (Blocked, p\<lparr>callbackCondition := True\<rparr>)
      else (Replied, SendState p))"

text \<open>
  \<^verbatim>\<open>WaitForSensorsThenSend\<close>: the stamp, the mutex, the loop. In a pass of the
  control loop it runs after the callbacks of the step; \<open>Blocked\<close> is then a thread
  that stays in \<^verbatim>\<open>wait\<close>.
\<close>

definition WaitForSensorsThenSend :: "Plugin \<Rightarrow> outcome \<times> Plugin" where
  "WaitForSensorsThenSend p = wait_loop (emit EvAwait (stamp p))"

text \<open>
  The barrier as the threads see it. Every access to the counter and to the condition
  variable is made with the one callback mutex held, so a run of the threads is a
  sequence of atomic events: a sensor callback runs, or the control-loop thread runs. The
  control-loop thread is before the mutex of \<^verbatim>\<open>WaitForSensorsThenSend\<close>
  (\<open>Waiting\<close>), inside \<^verbatim>\<open>callbackCondition.wait\<close> (\<open>InWait\<close>), or back from
  the function (\<open>Returned\<close>). When it runs from \<open>Waiting\<close> it executes
  \<^verbatim>\<open>WaitForSensorsThenSend\<close> (the stamp that precedes the mutex touches no field
  that a callback reads or writes); when it runs from \<open>InWait\<close> (notified, or woken
  spuriously) it takes the mutex again and goes on with the loop. A thread that is in
  \<^verbatim>\<open>wait\<close> and has not been notified need not run at all.
\<close>

datatype thread_event = Callback SensorMsg | WaiterRuns

datatype waiter = Waiting | InWait | Returned

definition waiter_step :: "waiter \<times> Plugin \<Rightarrow> waiter \<times> Plugin" where
  "waiter_step c =
     (case c of
        (Waiting, p) \<Rightarrow>
          (case WaitForSensorsThenSend p of
             (Blocked, p') \<Rightarrow> (InWait, p') | (r, p') \<Rightarrow> (Returned, p'))
      | (InWait, p) \<Rightarrow>
          (case wait_loop p of
             (Blocked, p') \<Rightarrow> (InWait, p') | (r, p') \<Rightarrow> (Returned, p'))
      | (Returned, p) \<Rightarrow> (Returned, p))"

fun barrier_run :: "thread_event list \<Rightarrow> waiter \<times> Plugin \<Rightarrow> (waiter \<times> Plugin) option" where
  "barrier_run [] c = Some c"
| "barrier_run (Callback m # evs) (w, p) =
     (case callback m p of None \<Rightarrow> None | Some p' \<Rightarrow> barrier_run evs (w, p'))"
| "barrier_run (WaiterRuns # evs) c = barrier_run evs (waiter_step c)"

text \<open>The control-loop thread is asleep: in \<^verbatim>\<open>wait\<close> and not notified.\<close>

definition asleep :: "waiter \<times> Plugin \<Rightarrow> bool" where
  "asleep c \<longleftrightarrow> fst c = InWait \<and> callbackCondition (snd c)"

fun arrivals :: "thread_event list \<Rightarrow> nat" where
  "arrivals [] = 0"
| "arrivals (Callback m # evs) = Suc (arrivals evs)"
| "arrivals (WaiterRuns # evs) = arrivals evs"

text \<open>The loop that fills \<^verbatim>\<open>cmd\<close> with \<^verbatim>\<open>action.motor(i)\<close>.\<close>

fun add_motor :: "Action \<Rightarrow> nat list \<Rightarrow> real list \<Rightarrow> real list option" where
  "add_motor a [] cmd = Some cmd"
| "add_motor a (i # rest) cmd =
     (case rf_get (motor a) i of None \<Rightarrow> None | Some v \<Rightarrow> add_motor a rest (cmd @ [v]))"

text \<open>
  One pass through the body of the \<^verbatim>\<open>while (1)\<close> of \<^verbatim>\<open>LoopThread\<close>, for what
  \<^verbatim>\<open>recvfrom\<close> gives in that pass; \<open>fuel\<close> bounds the loop of
  \<^verbatim>\<open>FlushSensors\<close>. \<^verbatim>\<open>LoadDigitalTwin\<close>, which runs once before the loop, is
  not part of the model.
\<close>

definition LoopIteration :: "RunEnv \<Rightarrow> nat \<Rightarrow> 8 word list option \<Rightarrow> Plugin \<Rightarrow> outcome \<times> Plugin" where
  "LoopIteration env fuel recv p =
     (case ReceiveAction env recv p of
        (False, p0) \<Rightarrow> (Skipped, p0)
      | (True, p0) \<Rightarrow>
          if world_control (action p0) = RESET then
            (case FlushSensors env fuel p0 of
               (Settled, p1) \<Rightarrow> (Replied, SendState (stamp p1))
             | (r, p1) \<Rightarrow> (r, p1))
          else
            let p1 = ResetCallbackCount p0 in
            (case actuator_indices (numActuators p1) of None \<Rightarrow> (Fault, p1)
             | Some idx \<Rightarrow>
            (case add_motor (action p1) idx [] of None \<Rightarrow> (Fault, p1)
             | Some cmd \<Rightarrow>
                 let p2 = world_Step (emit (EvPublish cmd) p1) in
                 (case deliver (sensor_replies env (steps (world p2))) p2 of
                    None \<Rightarrow> (Fault, p2)
                  | Some p3 \<Rightarrow> WaitForSensorsThenSend p3))))"

section \<open>Bootstrap\<close>

text \<open>
  What \<^verbatim>\<open>LoadVars\<close> reads: the results of \<^verbatim>\<open>std::getenv\<close> for the four variables
  (their names are macros of the header), \<^verbatim>\<open>std::stoi\<close> (\<open>None\<close> where it
  throws), and whether the operating system binds the port.
\<close>

record BootEnv =
  env_sitl_port :: "string option"
  env_digital_twin_sdf :: "string option"
  env_num_motors :: "string option"
  env_supported_sensors :: "string option"
  stoi :: "string \<Rightarrow> int option"
  os_bind :: "nat \<Rightarrow> bool"

text \<open>\<^verbatim>\<open>Bind\<close> takes the port as \<^verbatim>\<open>uint16_t\<close>.\<close>

definition Bind :: "BootEnv \<Rightarrow> int \<Rightarrow> bool" where
  "Bind env port = os_bind env (nat (port mod 65536))"

text \<open>\<^verbatim>\<open>boost::split\<close> at commas, empty tokens kept.\<close>

fun split_commas :: "string \<Rightarrow> string list" where
  "split_commas [] = [[]]"
| "split_commas (c # cs) =
     (if c = CHR '','' then [] # split_commas cs
      else (case split_commas cs of [] \<Rightarrow> [[c]] | t # ts \<Rightarrow> (c # t) # ts))"

text \<open>\<^verbatim>\<open>boost::iequals\<close> compares after folding the case of the ASCII letters.\<close>

definition to_lower :: "char \<Rightarrow> char" where
  "to_lower c =
     (case map_of (zip ''ABCDEFGHIJKLMNOPQRSTUVWXYZ'' ''abcdefghijklmnopqrstuvwxyz'') c of
        None \<Rightarrow> c
      | Some l \<Rightarrow> l)"

definition iequals :: "string \<Rightarrow> string \<Rightarrow> bool" where
  "iequals s t \<longleftrightarrow> map to_lower s = map to_lower t"

fun push_sensors :: "string list \<Rightarrow> Sensors list \<Rightarrow> Sensors list" where
  "push_sensors [] acc = acc"
| "push_sensors (s # rest) acc =
     push_sensors rest
       (if iequals s ''imu'' then acc @ [IMU]
        else if iequals s ''esc'' then acc @ [ESC]
        else acc)"

definition sitl_port :: "BootEnv \<Rightarrow> int option" where
  "sitl_port env = (case env_sitl_port env of None \<Rightarrow> Some 9002 | Some s \<Rightarrow> stoi env s)"

text \<open>
  \<^verbatim>\<open>LoadVars\<close>: \<open>None\<close> is an exception of \<^verbatim>\<open>std::stoi\<close>; every
  \<^verbatim>\<open>return\<close> of the source leaves \<^verbatim>\<open>LoadVars\<close> only, which returns
  \<^verbatim>\<open>void\<close>. The texts of the \<^verbatim>\<open>gzerr\<close> messages are shortened.
\<close>

definition LoadVars :: "BootEnv \<Rightarrow> Plugin \<Rightarrow> Plugin option" where
  "LoadVars env p =
     (case sitl_port env of None \<Rightarrow> None
      | Some port \<Rightarrow>
        if \<not> Bind env port then Some (emit (EvGzerr ''failed to bind, aborting plugin'') p)
        else (case env_digital_twin_sdf env of
          None \<Rightarrow> Some (emit (EvGzerr ''Could not load digital twin model'') p)
        | Some sdf \<Rightarrow>
          let p1 = p\<lparr>digitalTwinSDF := sdf\<rparr> in
          (case env_num_motors env of
             None \<Rightarrow> Some (emit (EvGzerr ''number of motors not set'') p1)
           | Some s \<Rightarrow>
             (case stoi env s of None \<Rightarrow> None
              | Some n \<Rightarrow>
                let p2 = p1\<lparr>numActuators := n\<rparr> in
                (case env_supported_sensors env of
                   None \<Rightarrow> Some (emit (EvGzerr ''supported sensors not set'') p2)
                 | Some l \<Rightarrow>
                   Some (p2\<lparr>supportedSensors :=
                              push_sensors (split_commas l) (supportedSensors p2)\<rparr>))))))"

text \<open>The subscriptions of \<^verbatim>\<open>Load\<close>, one pass over \<^verbatim>\<open>supportedSensors\<close>.\<close>

fun Subscribe_loop :: "Sensors list \<Rightarrow> Plugin \<Rightarrow> Plugin option" where
  "Subscribe_loop [] p = Some p"
| "Subscribe_loop (IMU # rest) p = Subscribe_loop rest (emit EvSubscribeImu p)"
| "Subscribe_loop (ESC # rest) p =
     (case actuator_indices (numActuators p) of None \<Rightarrow> None
      | Some idx \<Rightarrow> Subscribe_loop rest (p\<lparr>trace := trace p @ map EvSubscribeEsc idx\<rparr>))"

text \<open>
  \<^verbatim>\<open>Load\<close>, without the topic names of \<^verbatim>\<open>ProcessSDF\<close>. No statement of the source
  looks at what \<^verbatim>\<open>LoadVars\<close> did before going on.
\<close>

definition Load :: "BootEnv \<Rightarrow> Plugin \<Rightarrow> Plugin option" where
  "Load env p =
     (case LoadVars env p of None \<Rightarrow> None
      | Some p1 \<Rightarrow>
        let p2 = CalculateCallbackCount p1 in
        (case Subscribe_loop (supportedSensors p2) p2 of None \<Rightarrow> None
         | Some p3 \<Rightarrow>
           (case InitState p3 of None \<Rightarrow> None
            | Some p4 \<Rightarrow>
              let p5 = emit EvAdvertise p4;
                  p6 = emit EvSetPaused (p5\<lparr>world := (world p5)\<lparr>paused := True\<rparr>\<rparr>)
              in Some (emit EvStartLoopThread p6))))"

section \<open>Sample values\<close>

text \<open>
  A plugin as \<^verbatim>\<open>Load\<close> leaves it with the IMU and the ESC enabled and two
  actuators, and sensor messages for it.
\<close>

definition sample_plugin :: Plugin where
  "sample_plugin =
     FlightControllerPlugin_new
       \<lparr>supportedSensors := [IMU, ESC], numActuators := 2, numSensorCallbacks := 3,
        state := State_default
          \<lparr>imu_angular_velocity_rpy := [1, 1, 1],
           imu_orientation_quat := [0, 0, 0, 0],
           imu_linear_acceleration_xyz := [0, 0, 0],
           esc_motor_angular_velocity := [100, 100],
           esc_temperature := [10000, 10000],
           esc_current := [- 1, - 1],
           esc_voltage := [- 1, - 1]\<rparr>\<rparr>"

definition sample_imu :: "real \<Rightarrow> Imu" where
  "sample_imu v =
     \<lparr>angular_velocity_x = v, angular_velocity_y = 0, angular_velocity_z = 0,
      orientation_w = 1, orientation_x = 0, orientation_y = 0, orientation_z = 0,
      linear_acceleration_x = 0, linear_acceleration_y = 0, linear_acceleration_z = 0\<rparr>"

definition sample_esc :: "32 word \<Rightarrow> EscSensor" where
  "sample_esc i = \<lparr>esc_id = i, motor_speed = 50, temperature = 30, current = 2, voltage = 12\<rparr>"


text \<open>A simulator whose decoder accepts every datagram as the action \<open>a\<close>.\<close>

definition sample_env :: "Action \<Rightarrow> (nat \<Rightarrow> SensorMsg list) \<Rightarrow> RunEnv" where
  "sample_env a rs = \<lparr>ParseFromString = (\<lambda>bytes. (True, a)), sensor_replies = rs\<rparr>"

text \<open>A simulator whose decoder rejects every datagram and leaves the cleared action.\<close>

definition failing_env :: RunEnv where
  "failing_env = \<lparr>ParseFromString = (\<lambda>bytes. (False, Action_default)), sensor_replies = (\<lambda>n. [])\<rparr>"

text \<open>
  A \<^verbatim>\<open>double\<close> below 0.017 (about 0.016999999995) whose nearest 32-bit float is
  above it, and a simulator that answers every tick with it.
\<close>

definition near_error :: real where
  "near_error = 1224979098284487 / 72057594037927936"

definition near_error_env :: RunEnv where
  "near_error_env =
     sample_env \<lparr>world_control = RESET, motor = []\<rparr> (\<lambda>n. [ImuMsg (sample_imu near_error)])"

text \<open>A host on which every variable is set and the port cannot be bound.\<close>

definition port_in_use_env :: BootEnv where
  "port_in_use_env =
     \<lparr>env_sitl_port = None, env_digital_twin_sdf = Some ''twin.sdf'',
      env_num_motors = Some ''4'', env_supported_sensors = Some ''imu,esc'',
      stoi = (\<lambda>s. if s = ''4'' then Some 4 else None), os_bind = (\<lambda>port. False)\<rparr>"

section \<open>Machine numbers\<close>

lemma int32_id: "- 2147483648 \<le> x \<Longrightarrow> x \<le> 2147483647 \<Longrightarrow> int32 x = x"
  by (simp add: int32_def)

lemma find_upto:
  assumes "lo \<le> e" and "e \<le> hi" and "P e" and "\<And>k. lo \<le> k \<Longrightarrow> k < e \<Longrightarrow> \<not> P k"
  shows "find P [lo..hi] = Some e"
  unfolding find_Some_iff
proof (intro exI [of _ "nat (e - lo)"] conjI allI impI)
  have nth: "[lo..hi] ! k = lo + int k" if "k \<le> nat (e - lo)" for k
    using that assms(1,2) by (intro nth_upto) linarith
  show "nat (e - lo) < length [lo..hi]"
    using assms(1,2) by simp
  show "P ([lo..hi] ! nat (e - lo))"
    using assms(1,3) by (simp add: nth)
  show "e = [lo..hi] ! nat (e - lo)"
    using assms(1) by (simp add: nth)
  fix j assume j: "j < nat (e - lo)"
  then have "lo \<le> lo + int j" "lo + int j < e" by linarith+
  then have "\<not> P (lo + int j)" by (rule assms(4))
  then show "\<not> P ([lo..hi] ! j)"
    using j by (simp add: nth)
qed

text \<open>The exponent of a number that lies in a binade of the format.\<close>

lemma float_exponent_eq:
  assumes "- 126 \<le> e" and "e \<le> 126"
    and "e = - 126 \<or> 2 powi e \<le> a" and "a < 2 powi (e + 1)"
  shows "float_exponent a = e"
proof -
  have "find (\<lambda>e. a < 2 powi (e + 1)) [- 126..126] = Some e"
  proof (rule find_upto [where P = "\<lambda>e. a < 2 powi (e + 1)", OF assms(1,2)])
    show "a < 2 powi (e + 1)" by (rule assms(4))
  next
    fix k :: int assume k: "- 126 \<le> k" "k < e"
    with assms(3) have le: "2 powi e \<le> a" by auto
    have "(2::real) powi (k + 1) \<le> 2 powi e"
      using k by (intro power_int_increasing) simp_all
    with le show "\<not> a < 2 powi (k + 1)" by simp
  qed
  then show ?thesis
    unfolding float_exponent_def by (simp only: option.case)
qed

lemma to_float_0: "to_float 0 = 0"
  by (simp add: to_float_def round_even_def)

lemma to_float_1: "to_float 1 = 1"
proof -
  have "float_exponent \<bar>1\<bar> = 0"
    by (rule float_exponent_eq) simp_all
  then show ?thesis
    by (simp add: to_float_def round_even_def power_int_minus)
qed

lemma to_float_half: "to_float (1 / 2) = 1 / 2"
proof -
  have "float_exponent \<bar>1 / 2\<bar> = - 1"
    by (rule float_exponent_eq) (simp_all add: power_int_minus)
  then show ?thesis
    by (simp add: to_float_def round_even_def power_int_minus)
qed

text \<open>That reading is stored as the float 9126806 / 2^29, about 0.0170000009.\<close>

lemma to_float_near_error: "to_float near_error = 9126806 / 536870912"
proof -
  have "float_exponent \<bar>1224979098284487 / 72057594037927936\<bar> = - 6"
    by (rule float_exponent_eq) (simp_all add: power_int_minus)
  then show ?thesis
    unfolding to_float_def round_even_def Let_def near_error_def
    by (simp add: power_int_minus)
qed

section \<open>The callback budget\<close>

lemma SensorEnabled_loop_set: "SensorEnabled_loop ss s \<longleftrightarrow> s \<in> set ss"
  by (induction ss) auto

lemma CalculateCallbackCount_loop_frame:
  "numActuators (CalculateCallbackCount_loop ss p) = numActuators p
   \<and> supportedSensors (CalculateCallbackCount_loop ss p) = supportedSensors p
   \<and> state (CalculateCallbackCount_loop ss p) = state p
   \<and> trace (CalculateCallbackCount_loop ss p) = trace p
   \<and> world (CalculateCallbackCount_loop ss p) = world p"
  by (induction ss arbitrary: p) (auto split: Sensors.splits)

text \<open>A list that names no sensor kind twice is one of five.\<close>

lemma distinct_Sensors:
  assumes "distinct ss"
  shows "ss = [] \<or> ss = [IMU] \<or> ss = [ESC] \<or> ss = [IMU, ESC] \<or> ss = [ESC, IMU]"
proof (cases ss)
  case Nil
  then show ?thesis by simp
next
  case (Cons x xs)
  note c1 = this
  show ?thesis
  proof (cases xs)
    case Nil
    with c1 show ?thesis by (cases x) simp_all
  next
    case (Cons y ys)
    note c2 = this
    show ?thesis
    proof (cases ys)
      case Nil
      with c1 c2 assms show ?thesis by (cases x; cases y) simp_all
    next
      case (Cons z zs)
      with c1 c2 assms show ?thesis by (cases x; cases y; cases z) simp_all
    qed
  qed
qed

text \<open>
  C5, as the code has it. When no sensor kind is listed twice in the configuration, the
  budget starts at 0, the actuator count is not negative and the sum is an \<^verbatim>\<open>int\<close>,
  the budget that \<^verbatim>\<open>CalculateCallbackCount\<close> computes is 1 if the IMU is enabled plus
  the actuator count if the ESC is enabled, and \<^verbatim>\<open>ResetCallbackCount\<close> arms the
  counter with the negation of that value.
\<close>

theorem CalculateCallbackCount_budget:
  assumes "distinct (supportedSensors p)" and "numSensorCallbacks p = 0"
    and "0 \<le> numActuators p"
    and "(if SensorEnabled p IMU then 1 else 0)
         + (if SensorEnabled p ESC then numActuators p else 0) \<le> 2147483647"
  shows "numSensorCallbacks (CalculateCallbackCount p) =
           (if SensorEnabled p IMU then 1 else 0)
           + (if SensorEnabled p ESC then numActuators p else 0)
         \<and> sensorCallbackCount (ResetCallbackCount (CalculateCallbackCount p)) =
           - ((if SensorEnabled p IMU then 1 else 0)
              + (if SensorEnabled p ESC then numActuators p else 0))"
proof -
  have r: "sensorCallbackCount (ResetCallbackCount q) = - numSensorCallbacks q" for q
    by (simp add: ResetCallbackCount_def emit_def)
  from distinct_Sensors [OF assms(1)] assms(2-4) show ?thesis
    unfolding r
    by (elim disjE)
      (simp_all add: CalculateCallbackCount_def SensorEnabled_def int32_id)
qed

theorem CalculateCallbackCount_budget_witness:
  "distinct (supportedSensors (FlightControllerPlugin_new\<lparr>supportedSensors := [IMU, ESC], numActuators := 4\<rparr>))
   \<and> numSensorCallbacks (FlightControllerPlugin_new\<lparr>supportedSensors := [IMU, ESC], numActuators := 4\<rparr>) = 0
   \<and> numSensorCallbacks (CalculateCallbackCount
        (FlightControllerPlugin_new\<lparr>supportedSensors := [IMU, ESC], numActuators := 4\<rparr>)) = 5
   \<and> sensorCallbackCount (ResetCallbackCount (CalculateCallbackCount
        (FlightControllerPlugin_new\<lparr>supportedSensors := [IMU, ESC], numActuators := 4\<rparr>))) = - 5"
  using CalculateCallbackCount_budget
    [of "FlightControllerPlugin_new\<lparr>supportedSensors := [IMU, ESC], numActuators := 4\<rparr>"]
  by (simp add: FlightControllerPlugin_new_def SensorEnabled_def)

text \<open>
  C5 as stated fails in two ways. When the configuration names a sensor twice, the
  variable \<^verbatim>\<open>imu,imu\<close> enables the set that holds the IMU alone, and the budget is 2.
  When the IMU and the ESC are enabled and the actuator count is the greatest
  \<^verbatim>\<open>int\<close>, the sum is not an \<^verbatim>\<open>int\<close>, and the budget is negative.
\<close>

theorem CalculateCallbackCount_budget_counterexample:
  "\<not> (numSensorCallbacks (CalculateCallbackCount
        (FlightControllerPlugin_new
           \<lparr>supportedSensors := push_sensors (split_commas ''imu,imu'') [],
            numActuators := 4\<rparr>)) =
      (if SensorEnabled (FlightControllerPlugin_new
           \<lparr>supportedSensors := push_sensors (split_commas ''imu,imu'') [],
            numActuators := 4\<rparr>) IMU then 1 else 0)
      + (if SensorEnabled (FlightControllerPlugin_new
           \<lparr>supportedSensors := push_sensors (split_commas ''imu,imu'') [],
            numActuators := 4\<rparr>) ESC then 4 else 0))
   \<and> \<not> (numSensorCallbacks (CalculateCallbackCount
        (FlightControllerPlugin_new
           \<lparr>supportedSensors := push_sensors (split_commas ''imu,esc'') [],
            numActuators := 2147483647\<rparr>)) =
      (if SensorEnabled (FlightControllerPlugin_new
           \<lparr>supportedSensors := push_sensors (split_commas ''imu,esc'') [],
            numActuators := 2147483647\<rparr>) IMU then 1 else 0)
      + (if SensorEnabled (FlightControllerPlugin_new
           \<lparr>supportedSensors := push_sensors (split_commas ''imu,esc'') [],
            numActuators := 2147483647\<rparr>) ESC then 2147483647 else 0))"
  by (simp add: iequals_def to_lower_def CalculateCallbackCount_def int32_def
      FlightControllerPlugin_new_def SensorEnabled_def)

section \<open>The barrier\<close>

lemma sends_append: "sends (xs @ ys) = sends xs + sends ys"
  by (induction xs rule: sends.induct) auto

lemma callback_counter:
  assumes "callback m p = Some p'"
  shows "sensorCallbackCount p' = sensorCallbackCount p + 1 \<and> trace p' = trace p
         \<and> numSensorCallbacks p' = numSensorCallbacks p \<and> world p' = world p
         \<and> numActuators p' = numActuators p \<and> action p' = action p
         \<and> \<not> callbackCondition p'"
  using assms
  by (cases m)
    (auto simp: ImuCallback_def EscSensorCallback_def notify_all_def Let_def
      split: option.splits)

text \<open>What one run of the control-loop thread does, from where it is.\<close>

lemma wait_loop_cases:
  "(wait_condition p \<and> wait_loop p = (Blocked, p\<lparr>callbackCondition := True\<rparr>))
   \<or> (\<not> wait_condition p \<and> wait_loop p = (Replied, SendState p))"
  by (simp add: wait_loop_def)

lemma waiter_step_cases:
  assumes "waiter_step (w, p) = (w', p')"
  shows "sensorCallbackCount p' = sensorCallbackCount p
         \<and> numSensorCallbacks p' = numSensorCallbacks p
         \<and> (w = Returned \<longrightarrow> w' = Returned \<and> p' = p)
         \<and> (w \<noteq> Returned \<and> wait_condition p \<longrightarrow>
               w' = InWait \<and> callbackCondition p' \<and> sends (trace p') = sends (trace p))
         \<and> (w \<noteq> Returned \<and> \<not> wait_condition p \<longrightarrow>
               w' = Returned \<and> sends (trace p') = sends (trace p) + 1)"
proof (cases w)
  case Waiting
  let ?q = "emit EvAwait (stamp p)"
  have q: "wait_condition ?q = wait_condition p" "sensorCallbackCount ?q = sensorCallbackCount p"
    "numSensorCallbacks ?q = numSensorCallbacks p" "sends (trace ?q) = sends (trace p)"
    by (simp_all add: wait_condition_def emit_def stamp_def sends_append)
  from wait_loop_cases [of ?q] assms Waiting q show ?thesis
    by (auto simp: waiter_step_def WaitForSensorsThenSend_def SendState_def emit_def
        sends_append)
next
  case InWait
  from wait_loop_cases [of p] assms InWait show ?thesis
    by (auto simp: waiter_step_def SendState_def emit_def sends_append)
next
  case Returned
  with assms show ?thesis
    by (auto simp: waiter_step_def)
qed

lemma barrier_run_append:
  "barrier_run (xs @ ys) c =
     (case barrier_run xs c of None \<Rightarrow> None | Some c' \<Rightarrow> barrier_run ys c')"
  by (induction xs c rule: barrier_run.induct) (auto split: option.splits)

text \<open>
  The invariant of the runs: a thread that is asleep has the wait condition true (no
  notification is lost), and a thread that has returned has seen the counter at 0 or
  above; the counter only counts the callbacks.
\<close>

lemma barrier_run_invariant:
  assumes "barrier_run evs (w, p) = Some (w', p')"
    and "asleep (w, p) \<longrightarrow> wait_condition p"
    and "w = Returned \<longrightarrow> 0 \<le> sensorCallbackCount p"
  shows "sensorCallbackCount p' = sensorCallbackCount p + int (arrivals evs)
         \<and> numSensorCallbacks p' = numSensorCallbacks p
         \<and> (w = Returned \<longrightarrow> w' = Returned)
         \<and> (asleep (w', p') \<longrightarrow> wait_condition p')
         \<and> (w' = Returned \<longrightarrow> 0 \<le> sensorCallbackCount p')
         \<and> sends (trace p') = sends (trace p) + (if w \<noteq> Returned \<and> w' = Returned then 1 else 0)"
  using assms
proof (induction evs arbitrary: w p)
  case Nil
  then show ?case by simp
next
  case (Cons ev evs)
  show ?case
  proof (cases ev)
    case (Callback m)
    with Cons.prems(1) obtain q where q: "callback m p = Some q"
      and r: "barrier_run evs (w, q) = Some (w', p')"
      by (auto split: option.splits)
    note c = callback_counter [OF q]
    have "asleep (w, q) \<longrightarrow> wait_condition q"
      using c by (simp add: asleep_def)
    moreover have "w = Returned \<longrightarrow> 0 \<le> sensorCallbackCount q"
      using c Cons.prems(3) by simp
    ultimately show ?thesis
      using Cons.IH [OF r] c Callback by auto
  next
    case WaiterRuns
    obtain w1 q where s: "waiter_step (w, p) = (w1, q)"
      by (cases "waiter_step (w, p)")
    with Cons.prems(1) WaiterRuns have r: "barrier_run evs (w1, q) = Some (w', p')"
      by simp
    note c = waiter_step_cases [OF s]
    have i1: "asleep (w1, q) \<longrightarrow> wait_condition q"
      using c Cons.prems(2) by (cases "w = Returned") (auto simp: asleep_def wait_condition_def)
    have i2: "w1 = Returned \<longrightarrow> 0 \<le> sensorCallbackCount q"
      using c Cons.prems(3)
      by (cases "w = Returned"; cases "wait_condition p") (auto simp: wait_condition_def)
    have i3: "sends (trace q) = sends (trace p) + (if w \<noteq> Returned \<and> w1 = Returned then 1 else 0)"
      using c by (cases "w = Returned"; cases "wait_condition p") auto
    have i4: "w = Returned \<longrightarrow> w1 = Returned"
      using c by simp
    from Cons.IH [OF r i1 i2] c i3 i4 WaiterRuns show ?thesis
      by (cases "w = Returned"; cases "w1 = Returned") auto
  qed
qed

text \<open>
  C2. Arming sets the counter to the negated budget \<open>k\<close>. Take any run of callbacks
  and of the control-loop thread that starts from the armed counter with the thread
  before \<^verbatim>\<open>WaitForSensorsThenSend\<close>, in the range where \<^verbatim>\<open>int\<close> arithmetic is
  exact. The counter is the number of callbacks that have run minus \<open>k\<close>, and the wait
  condition holds exactly while fewer than \<open>k\<close> have run. The thread has not returned
  before \<open>k\<close> callbacks have run, and it sends the state once when it returns and never
  otherwise. After a callback the thread is not asleep (the callback notifies it). Once
  \<open>k\<close> callbacks have run the thread is not asleep either, whatever ran last (it has
  returned or is about to take the mutex), and when it runs next it returns.
\<close>

theorem barrier_property:
  assumes "barrier_run evs (Waiting, ResetCallbackCount p) = Some (w, p')"
    and "0 \<le> numSensorCallbacks p" and "numSensorCallbacks p \<le> 2147483647"
    and "int (arrivals evs) \<le> 2147483647"
  shows "sensorCallbackCount (ResetCallbackCount p) = - numSensorCallbacks p
         \<and> sensorCallbackCount p' = int (arrivals evs) - numSensorCallbacks p
         \<and> (wait_condition p' \<longleftrightarrow> int (arrivals evs) < numSensorCallbacks p)
         \<and> (w = Returned \<longrightarrow> numSensorCallbacks p \<le> int (arrivals evs))
         \<and> sends (trace p') = sends (trace p) + (if w = Returned then 1 else 0)
         \<and> (\<forall>evs' m. evs = evs' @ [Callback m] \<longrightarrow> \<not> asleep (w, p'))
         \<and> (numSensorCallbacks p \<le> int (arrivals evs) \<longrightarrow>
              \<not> asleep (w, p')
              \<and> (\<exists>q. barrier_run (evs @ [WaiterRuns]) (Waiting, ResetCallbackCount p)
                     = Some (Returned, q)))"
proof -
  have arm: "sensorCallbackCount (ResetCallbackCount p) = - numSensorCallbacks p"
    and tr: "sends (trace (ResetCallbackCount p)) = sends (trace p)"
    by (simp_all add: ResetCallbackCount_def emit_def sends_append)
  have k: "numSensorCallbacks (ResetCallbackCount p) = numSensorCallbacks p"
    by (simp add: ResetCallbackCount_def emit_def)
  have inv: "sensorCallbackCount p' = sensorCallbackCount (ResetCallbackCount p) + int (arrivals evs)"
    "asleep (w, p') \<longrightarrow> wait_condition p'"
    "w = Returned \<longrightarrow> 0 \<le> sensorCallbackCount p'"
    "sends (trace p') = sends (trace (ResetCallbackCount p)) + (if w = Returned then 1 else 0)"
    using barrier_run_invariant [OF assms(1)] by (auto simp: asleep_def)
  from inv(1) arm have cnt: "sensorCallbackCount p' = int (arrivals evs) - numSensorCallbacks p"
    by simp
  have live: "\<not> asleep (w, p')
              \<and> (\<exists>q. barrier_run (evs @ [WaiterRuns]) (Waiting, ResetCallbackCount p)
                     = Some (Returned, q))"
    if "numSensorCallbacks p \<le> int (arrivals evs)"
  proof
    from that cnt have nw: "\<not> wait_condition p'" by (simp add: wait_condition_def)
    with inv(2) show "\<not> asleep (w, p')" by blast
    obtain w1 q where s: "waiter_step (w, p') = (w1, q)"
      by (cases "waiter_step (w, p')")
    from waiter_step_cases [OF s] nw have "w1 = Returned"
      by (cases "w = Returned") auto
    with s show "\<exists>q. barrier_run (evs @ [WaiterRuns]) (Waiting, ResetCallbackCount p)
                     = Some (Returned, q)"
      by (simp add: barrier_run_append assms(1))
  qed
  have sig: "\<not> asleep (w, p')" if "evs = evs' @ [Callback m]" for evs' m
  proof -
    from assms(1) that obtain w1 q where
      "barrier_run [Callback m] (w1, q) = Some (w, p')"
      by (auto simp: barrier_run_append split: option.splits)
    then have "callback m q = Some p'"
      by (auto split: option.splits)
    from callback_counter [OF this] show ?thesis
      by (simp add: asleep_def)
  qed
  from inv arm tr cnt live sig show ?thesis
    by (auto simp: wait_condition_def)
qed

theorem barrier_property_witness:
  "\<exists>q. barrier_run
          [WaiterRuns, Callback (ImuMsg (sample_imu 0)), Callback (EscMsg (sample_esc 0)),
           WaiterRuns, Callback (EscMsg (sample_esc 1)), WaiterRuns]
          (Waiting, ResetCallbackCount sample_plugin) = Some (Returned, q)
       \<and> sensorCallbackCount q = 0 \<and> \<not> wait_condition q
       \<and> sends (trace q) = sends (trace sample_plugin) + 1"
proof -
  let ?evs = "[WaiterRuns, Callback (ImuMsg (sample_imu 0)), Callback (EscMsg (sample_esc 0)),
           WaiterRuns, Callback (EscMsg (sample_esc 1)), WaiterRuns]"
  have "\<exists>q. barrier_run ?evs (Waiting, ResetCallbackCount sample_plugin) = Some (Returned, q)"
    by (simp add: ResetCallbackCount_def sample_plugin_def FlightControllerPlugin_new_def
        State_default_def emit_def wait_condition_def ImuCallback_def EscSensorCallback_def
        rf_set_def sample_imu_def sample_esc_def SendState_def Let_def waiter_step_def
        WaitForSensorsThenSend_def wait_loop_def stamp_def notify_all_def to_float_0
        to_float_1)
  then obtain q where q: "barrier_run ?evs (Waiting, ResetCallbackCount sample_plugin) = Some (Returned, q)"
    by blast
  have h: "0 \<le> numSensorCallbacks sample_plugin" "numSensorCallbacks sample_plugin \<le> 2147483647"
    "int (arrivals ?evs) \<le> 2147483647"
    by (simp_all add: sample_plugin_def FlightControllerPlugin_new_def)
  from barrier_property [OF q h] have "sensorCallbackCount q = 0 \<and> \<not> wait_condition q
       \<and> sends (trace q) = sends (trace sample_plugin) + 1"
    by (simp add: sample_plugin_def FlightControllerPlugin_new_def)
  with q show ?thesis by blast
qed

text \<open>
  C8. With a budget of 0 the armed counter is 0, the wait condition is false when the
  waiter first evaluates it, and the state is sent without any callback.
\<close>

theorem barrier_no_sensors:
  assumes "numSensorCallbacks p = 0"
  shows "sensorCallbackCount (ResetCallbackCount p) = 0
         \<and> \<not> wait_condition (ResetCallbackCount p)
         \<and> WaitForSensorsThenSend (ResetCallbackCount p)
             = (Replied, SendState (emit EvAwait (stamp (ResetCallbackCount p))))
         \<and> barrier_run [WaiterRuns] (Waiting, ResetCallbackCount p)
             = Some (Returned, SendState (emit EvAwait (stamp (ResetCallbackCount p))))"
  using assms
  by (simp add: ResetCallbackCount_def wait_condition_def WaitForSensorsThenSend_def
      wait_loop_def waiter_step_def emit_def stamp_def Let_def)

theorem barrier_no_sensors_witness:
  "numSensorCallbacks FlightControllerPlugin_new = 0
   \<and> sensorCallbackCount (ResetCallbackCount FlightControllerPlugin_new) = 0
   \<and> \<not> wait_condition (ResetCallbackCount FlightControllerPlugin_new)
   \<and> fst (WaitForSensorsThenSend (ResetCallbackCount FlightControllerPlugin_new)) = Replied"
  using barrier_no_sensors [of FlightControllerPlugin_new]
  by (simp add: FlightControllerPlugin_new_def)

section \<open>Sensor callbacks and the state store\<close>

lemma InitState_fresh:
  assumes "InitState (p\<lparr>state := State_default\<rparr>) = Some q"
  shows "0 \<le> numActuators p"
    and "q = p\<lparr>state := State_default
          \<lparr>imu_angular_velocity_rpy := [1, 1, 1],
           imu_linear_acceleration_xyz := [0, 0, 0],
           imu_orientation_quat := [0, 0, 0, 0],
           esc_motor_angular_velocity := replicate (nat (numActuators p)) 100,
           esc_temperature := replicate (nat (numActuators p)) 10000,
           esc_current := replicate (nat (numActuators p)) (- 1),
           esc_voltage := replicate (nat (numActuators p)) (- 1)\<rparr>\<rparr>"
  using assms
  by (auto simp: InitState_def actuator_indices_def Let_def eval_nat_numeral
      map_replicate_const State_default_def split: if_splits)


lemma EscSensorCallback_Some:
  "EscSensorCallback m p = Some p' \<longleftrightarrow>
     unat (esc_id m) < length (esc_motor_angular_velocity (state p))
     \<and> unat (esc_id m) < length (esc_temperature (state p))
     \<and> unat (esc_id m) < length (esc_current (state p))
     \<and> unat (esc_id m) < length (esc_voltage (state p))
     \<and> p' = p\<lparr>state := (state p)
        \<lparr>esc_motor_angular_velocity :=
           (esc_motor_angular_velocity (state p))[unat (esc_id m) := motor_speed m],
         esc_temperature := (esc_temperature (state p))[unat (esc_id m) := temperature m],
         esc_current := (esc_current (state p))[unat (esc_id m) := current m],
         esc_voltage := (esc_voltage (state p))[unat (esc_id m) := voltage m]\<rparr>,
        sensorCallbackCount := sensorCallbackCount p + 1,
        callbackCondition := False\<rparr>"
  by (auto simp add: EscSensorCallback_def rf_set_def Let_def notify_all_def)


lemma EscSensorCallback_None:
  "EscSensorCallback m p = None \<longleftrightarrow>
     \<not> (unat (esc_id m) < length (esc_motor_angular_velocity (state p))
     \<and> unat (esc_id m) < length (esc_temperature (state p))
     \<and> unat (esc_id m) < length (esc_current (state p))
     \<and> unat (esc_id m) < length (esc_voltage (state p)))"
  by (auto simp add: EscSensorCallback_def rf_set_def Let_def)

text \<open>
  C10. An ESC callback that returns has written the four ESC arrays at the index given by
  the id of the message and nowhere else, has left the IMU fields as they were, and has
  counted itself once. The index is not checked: on the arrays that \<^verbatim>\<open>InitState\<close>
  builds, which have one entry for each actuator, the callback is a fault exactly when the
  id is not below the actuator count.
\<close>

theorem EscSensorCallback_index:
  "(EscSensorCallback m p = Some p' \<longrightarrow>
      state p' = (state p)
        \<lparr>esc_motor_angular_velocity :=
           (esc_motor_angular_velocity (state p))[unat (esc_id m) := motor_speed m],
         esc_temperature := (esc_temperature (state p))[unat (esc_id m) := temperature m],
         esc_current := (esc_current (state p))[unat (esc_id m) := current m],
         esc_voltage := (esc_voltage (state p))[unat (esc_id m) := voltage m]\<rparr>
      \<and> imu_angular_velocity_rpy (state p') = imu_angular_velocity_rpy (state p)
      \<and> imu_orientation_quat (state p') = imu_orientation_quat (state p)
      \<and> imu_linear_acceleration_xyz (state p') = imu_linear_acceleration_xyz (state p)
      \<and> (\<forall>j. j \<noteq> unat (esc_id m) \<longrightarrow>
            esc_motor_angular_velocity (state p') ! j = esc_motor_angular_velocity (state p) ! j
          \<and> esc_temperature (state p') ! j = esc_temperature (state p) ! j
          \<and> esc_current (state p') ! j = esc_current (state p) ! j
          \<and> esc_voltage (state p') ! j = esc_voltage (state p) ! j)
      \<and> sensorCallbackCount p' = sensorCallbackCount p + 1)
   \<and> (InitState (p0\<lparr>state := State_default\<rparr>) = Some p \<longrightarrow>
        (EscSensorCallback m p = None \<longleftrightarrow> numActuators p \<le> int (unat (esc_id m))))"
proof (intro conjI impI)
  assume "InitState (p0\<lparr>state := State_default\<rparr>) = Some p"
  note f = InitState_fresh [OF this]
  have "unat (esc_id m) < nat (numActuators p0) \<longleftrightarrow> int (unat (esc_id m)) < numActuators p0"
    using f(1) by linarith
  then show "EscSensorCallback m p = None \<longleftrightarrow> numActuators p \<le> int (unat (esc_id m))"
    unfolding EscSensorCallback_None by (subst (1 2 3 4 5) f(2)) (simp add: not_less)
next
  assume "EscSensorCallback m p = Some p'"
  then have p': "p' = p\<lparr>state := (state p)
        \<lparr>esc_motor_angular_velocity :=
           (esc_motor_angular_velocity (state p))[unat (esc_id m) := motor_speed m],
         esc_temperature := (esc_temperature (state p))[unat (esc_id m) := temperature m],
         esc_current := (esc_current (state p))[unat (esc_id m) := current m],
         esc_voltage := (esc_voltage (state p))[unat (esc_id m) := voltage m]\<rparr>,
        sensorCallbackCount := sensorCallbackCount p + 1,
        callbackCondition := False\<rparr>"
    by (simp add: EscSensorCallback_Some)
  show "state p' = (state p)
        \<lparr>esc_motor_angular_velocity :=
           (esc_motor_angular_velocity (state p))[unat (esc_id m) := motor_speed m],
         esc_temperature := (esc_temperature (state p))[unat (esc_id m) := temperature m],
         esc_current := (esc_current (state p))[unat (esc_id m) := current m],
         esc_voltage := (esc_voltage (state p))[unat (esc_id m) := voltage m]\<rparr>"
    by (simp add: p')
  show "imu_angular_velocity_rpy (state p') = imu_angular_velocity_rpy (state p)"
    by (simp add: p')
  show "imu_orientation_quat (state p') = imu_orientation_quat (state p)"
    by (simp add: p')
  show "imu_linear_acceleration_xyz (state p') = imu_linear_acceleration_xyz (state p)"
    by (simp add: p')
  show "\<forall>j. j \<noteq> unat (esc_id m) \<longrightarrow>
            esc_motor_angular_velocity (state p') ! j = esc_motor_angular_velocity (state p) ! j
          \<and> esc_temperature (state p') ! j = esc_temperature (state p) ! j
          \<and> esc_current (state p') ! j = esc_current (state p) ! j
          \<and> esc_voltage (state p') ! j = esc_voltage (state p) ! j"
    by (simp add: p')
  show "sensorCallbackCount p' = sensorCallbackCount p + 1"
    by (simp add: p')
qed

lemma sample_plugin_InitState:
  "InitState (FlightControllerPlugin_new\<lparr>supportedSensors := [IMU, ESC], numActuators := 2,
       numSensorCallbacks := 3, state := State_default\<rparr>) = Some sample_plugin"
  by (simp add: InitState_def actuator_indices_def sample_plugin_def eval_nat_numeral
      FlightControllerPlugin_new_def State_default_def)

theorem EscSensorCallback_index_witness:
  "\<exists>q. EscSensorCallback (sample_esc 1) sample_plugin = Some q
       \<and> esc_motor_angular_velocity (state q) = [100, 50]
       \<and> esc_temperature (state q) = [10000, 30]
       \<and> esc_current (state q) = [- 1, 2]
       \<and> esc_voltage (state q) = [- 1, 12]
       \<and> imu_angular_velocity_rpy (state q) = [1, 1, 1]
       \<and> EscSensorCallback (sample_esc 2) sample_plugin = None"
proof -
  have "\<exists>q. EscSensorCallback (sample_esc 1) sample_plugin = Some q"
    by (simp add: EscSensorCallback_Some sample_esc_def sample_plugin_def
        FlightControllerPlugin_new_def State_default_def)
  then obtain q where q: "EscSensorCallback (sample_esc 1) sample_plugin = Some q"
    by blast
  have n: "numActuators sample_plugin \<le> int (unat (esc_id (sample_esc 2)))"
    by (simp add: sample_esc_def sample_plugin_def FlightControllerPlugin_new_def)
  from EscSensorCallback_index [of "sample_esc 1" sample_plugin q] q
    EscSensorCallback_index [of "sample_esc 2" sample_plugin q, THEN conjunct2, rule_format,
      OF sample_plugin_InitState] n
  show ?thesis
    by (simp add: sample_esc_def sample_plugin_def FlightControllerPlugin_new_def
        State_default_def)
qed

section \<open>The control loop\<close>

lemma deliver_frame:
  assumes "deliver ms p = Some p'"
  shows "trace p' = trace p \<and> world p' = world p
         \<and> numSensorCallbacks p' = numSensorCallbacks p
         \<and> numActuators p' = numActuators p \<and> action p' = action p
         \<and> sensorCallbackCount p' = sensorCallbackCount p + int (length ms)"
  using assms
proof (induction ms arbitrary: p)
  case Nil
  then show ?case by simp
next
  case (Cons m ms)
  then obtain q where q: "callback m p = Some q" and r: "deliver ms q = Some p'"
    by (auto split: option.splits)
  from callback_counter [OF q] Cons.IH [OF r] show ?case
    by simp
qed

lemma FlushSensors_loop_events:
  "\<exists>es. trace (snd (FlushSensors_loop env fuel p)) = trace p @ es
        \<and> set es \<subseteq> {EvStep, EvSoftReset}
        \<and> steps (world (snd (FlushSensors_loop env fuel p))) = steps (world p) + count_list es EvStep"
proof (induction fuel arbitrary: p)
  case 0
  show ?case by simp
next
  case (Suc fuel)
  show ?case
  proof (cases "unsettled (state p)")
    case None
    then show ?thesis by simp
  next
    case (Some b)
    show ?thesis
    proof (cases b)
      case False
      with Some show ?thesis by simp
    next
      case True
      let ?p1 = "world_Step p"
      have p1: "trace ?p1 = trace p @ [EvStep]" "steps (world ?p1) = steps (world p) + 1"
        by (simp_all add: world_Step_def emit_def)
      show ?thesis
      proof (cases "deliver (sensor_replies env (steps (world ?p1))) ?p1")
        case None
        with Some True have "FlushSensors_loop env (Suc fuel) p = (Fault, ?p1)"
          by (simp add: Let_def)
        with p1 show ?thesis
          by (intro exI [of _ "[EvStep]"]) simp
      next
        case (Some p2)
        let ?p3 = "SoftReset p2"
        from deliver_frame [OF Some] p1
        have p3: "trace ?p3 = trace p @ [EvStep, EvSoftReset]"
          "steps (world ?p3) = steps (world p) + 1"
          by (simp_all add: SoftReset_def emit_def)
        from Some True \<open>unsettled (state p) = Some b\<close>
        have eq: "FlushSensors_loop env (Suc fuel) p = FlushSensors_loop env fuel ?p3"
          by (simp add: Let_def)
        from Suc.IH [of ?p3] obtain es where
          es: "trace (snd (FlushSensors_loop env fuel ?p3)) = trace ?p3 @ es"
          "set es \<subseteq> {EvStep, EvSoftReset}"
          "steps (world (snd (FlushSensors_loop env fuel ?p3))) = steps (world ?p3) + count_list es EvStep"
          by blast
        show ?thesis
          unfolding eq using es p3
          by (intro exI [of _ "[EvStep, EvSoftReset] @ es"]) simp
      qed
    qed
  qed
qed

lemma unsettled_InitState:
  assumes "InitState (p\<lparr>state := State_default\<rparr>) = Some q"
  shows "unsettled (state q) = Some True"
  by (subst InitState_fresh(2) [OF assms])
    (simp add: unsettled_def exceeds_def or_else_def rf_get_def error_def)

text \<open>
  C7. On the state that \<^verbatim>\<open>InitState\<close> seeds in a new message, the settle check of
  \<^verbatim>\<open>FlushSensors\<close> asks for one more tick (the seeded angular velocity 1 is above
  0.017), so a settle sequence that starts there calls \<^verbatim>\<open>Step(1)\<close> at least once,
  whatever the simulator answers.
\<close>

theorem InitState_forces_tick:
  assumes "InitState (p\<lparr>state := State_default\<rparr>) = Some q"
  shows "unsettled (state q) = Some True
         \<and> (\<forall>env fuel. steps (world q) + 1
               \<le> steps (world (snd (FlushSensors env (Suc fuel) q))))"
proof (intro conjI allI)
  show u: "unsettled (state q) = Some True"
    by (rule unsettled_InitState [OF assms])
  fix env fuel
  let ?q0 = "SoftReset q"
  let ?q1 = "world_Step ?q0"
  have s: "state ?q0 = state q" "steps (world ?q1) = steps (world q) + 1"
    by (simp_all add: SoftReset_def world_Step_def emit_def)
  show "steps (world q) + 1 \<le> steps (world (snd (FlushSensors env (Suc fuel) q)))"
  proof (cases "deliver (sensor_replies env (steps (world ?q1))) ?q1")
    case None
    with u s show ?thesis
      by (simp add: FlushSensors_def Let_def)
  next
    case (Some q2)
    from deliver_frame [OF Some] s
    have "steps (world (SoftReset q2)) = steps (world q) + 1"
      by (simp add: SoftReset_def emit_def)
    moreover from FlushSensors_loop_events [of env fuel "SoftReset q2"]
    have "steps (world (SoftReset q2)) \<le> steps (world (snd (FlushSensors_loop env fuel (SoftReset q2))))"
      by auto
    moreover from Some u s
    have "FlushSensors env (Suc fuel) q = FlushSensors_loop env fuel (SoftReset q2)"
      by (simp add: FlushSensors_def Let_def)
    ultimately show ?thesis by simp
  qed
qed

theorem InitState_forces_tick_witness:
  "InitState (FlightControllerPlugin_new\<lparr>supportedSensors := [IMU, ESC], numActuators := 2,
       numSensorCallbacks := 3, state := State_default\<rparr>) = Some sample_plugin
   \<and> unsettled (state sample_plugin) = Some True
   \<and> 1 \<le> steps (world (snd (FlushSensors
            \<lparr>ParseFromString = (\<lambda>b. (True, Action_default)), sensor_replies = (\<lambda>n. [])\<rparr>
            (Suc 0) sample_plugin)))"
proof -
  note t = InitState_forces_tick [OF sample_plugin_InitState]
  from t have "steps (world sample_plugin) + 1 \<le> steps (world (snd (FlushSensors
            \<lparr>ParseFromString = (\<lambda>b. (True, Action_default)), sensor_replies = (\<lambda>n. [])\<rparr>
            (Suc 0) sample_plugin)))"
    by blast
  then have "1 \<le> steps (world (snd (FlushSensors
            \<lparr>ParseFromString = (\<lambda>b. (True, Action_default)), sensor_replies = (\<lambda>n. [])\<rparr>
            (Suc 0) sample_plugin)))"
    by linarith
  moreover from t have "unsettled (state sample_plugin) = Some True"
    by blast
  ultimately show ?thesis
    using sample_plugin_InitState by blast
qed

section \<open>One pass of the control loop\<close>

lemma add_motor_append:
  "add_motor a (is @ js) cmd =
     (case add_motor a is cmd of None \<Rightarrow> None | Some c \<Rightarrow> add_motor a js c)"
  by (induction "is" arbitrary: cmd) (auto split: option.splits)

lemma add_motor_upt:
  "n \<le> length (motor a) \<Longrightarrow> add_motor a [0..<n] cmd = Some (cmd @ take n (motor a))"
proof (induction n)
  case 0
  show ?case by simp
next
  case (Suc n)
  then show ?case
    by (simp add: add_motor_append rf_get_def take_Suc_conv_app_nth)
qed

lemma add_motor_short:
  "length (motor a) < n \<Longrightarrow> add_motor a [0..<n] cmd = None"
proof (induction n)
  case 0
  then show ?case by simp
next
  case (Suc n)
  show ?case
  proof (cases "length (motor a) < n")
    case True
    with Suc.IH show ?thesis by (simp add: add_motor_append)
  next
    case False
    with Suc.prems have "n = length (motor a)" by simp
    then show ?thesis
      by (simp add: add_motor_append add_motor_upt rf_get_def)
  qed
qed

text \<open>
  With fewer motor entries than actuators the loop that fills the command reads
  \<^verbatim>\<open>action.motor(i)\<close> outside the field, before the world is stepped.
\<close>

lemma LoopIteration_STEP_short_motor:
  assumes "world_control (snd (ParseFromString env (take 1024 dgram))) = STEP"
    and "int (length (motor (snd (ParseFromString env (take 1024 dgram))))) < numActuators p"
  shows "fst (LoopIteration env fuel (Some dgram) p) = Fault
         \<and> world (snd (LoopIteration env fuel (Some dgram) p)) = world p"
proof -
  let ?a = "snd (ParseFromString env (take 1024 dgram))"
  from assms(2) have n: "\<not> numActuators p < 0" "length (motor ?a) < nat (numActuators p)"
    by linarith+
  have "add_motor (action (ResetCallbackCount (p\<lparr>action := ?a\<rparr>))) [0..<nat (numActuators p)] []
          = None"
    using add_motor_short [OF n(2), of "[]"] by (simp add: ResetCallbackCount_def emit_def)
  with assms(1) n(1) show ?thesis
    by (simp add: LoopIteration_def ReceiveAction_def Let_def actuator_indices_def
        ResetCallbackCount_def emit_def)
qed



lemma FlushSensors_loop_outcome:
  "fst (FlushSensors_loop env fuel p) \<in> {Settled, Fault, OutOfFuel}"
proof (induction fuel arbitrary: p)
  case 0
  show ?case by simp
next
  case (Suc fuel)
  show ?case
  proof (cases "unsettled (state p)")
    case None
    then show ?thesis by simp
  next
    case (Some b)
    show ?thesis
    proof (cases "b \<and> deliver (sensor_replies env (steps (world (world_Step p)))) (world_Step p) \<noteq> None")
      case True
      then obtain p2 where
        "deliver (sensor_replies env (steps (world (world_Step p)))) (world_Step p) = Some p2"
        by blast
      with True Some Suc.IH [of "SoftReset p2"] show ?thesis
        by (simp add: Let_def)
    next
      case False
      with Some show ?thesis
        by (cases b) (auto simp: Let_def)
    qed
  qed
qed

lemma WaitForSensorsThenSend_outcome:
  "fst (WaitForSensorsThenSend p) \<noteq> Skipped"
  by (simp add: WaitForSensorsThenSend_def wait_loop_def)

text \<open>
  C3. The code does not do what the claim says: \<^verbatim>\<open>ReceiveAction\<close> returns true for
  every datagram that \<^verbatim>\<open>recvfrom\<close> delivers, whatever \<^verbatim>\<open>ParseFromString\<close>
  answers, and the pass of the control loop is not skipped.
\<close>

theorem ReceiveAction_ignores_parse_result:
  "fst (ReceiveAction env (Some dgram) p)
   \<and> fst (LoopIteration env fuel (Some dgram) p) \<noteq> Skipped"
proof
  show "fst (ReceiveAction env (Some dgram) p)"
    by (simp add: ReceiveAction_def)
  let ?p0 = "p\<lparr>action := snd (ParseFromString env (take 1024 dgram))\<rparr>"
  show "fst (LoopIteration env fuel (Some dgram) p) \<noteq> Skipped"
  proof (cases "world_control (action ?p0) = RESET")
    case True
    obtain r p1 where f: "FlushSensors env fuel ?p0 = (r, p1)"
      by (cases "FlushSensors env fuel ?p0")
    with FlushSensors_loop_outcome [of env fuel "SoftReset ?p0"]
    have "r \<in> {Settled, Fault, OutOfFuel}"
      by (simp add: FlushSensors_def)
    with True f show ?thesis
      by (auto simp: LoopIteration_def ReceiveAction_def)
  next
    case False
    then show ?thesis
      by (simp add: LoopIteration_def ReceiveAction_def Let_def
          WaitForSensorsThenSend_outcome split: option.splits)
  qed
qed

text \<open>
  The failing input: a datagram of the single byte 255, which no Action message starts
  with. The decoder rejects it, and the pass arms the barrier, publishes a command, steps
  the world and sends a state.
\<close>

lemma LoopIteration_parse_failure_example:
  "\<not> fst (ParseFromString failing_env (take 1024 [255]))
   \<and> fst (LoopIteration failing_env 0 (Some [255]) FlightControllerPlugin_new) = Replied
   \<and> trace (snd (LoopIteration failing_env 0 (Some [255]) FlightControllerPlugin_new))
       = [EvArm 0, EvPublish [], EvStep, EvAwait,
          EvSend (State_default\<lparr>sim_time := 1\<rparr>)]"
  by (simp add: LoopIteration_def ReceiveAction_def failing_env_def
      FlightControllerPlugin_new_def State_default_def Action_default_def
      ResetCallbackCount_def emit_def actuator_indices_def world_Step_def
      WaitForSensorsThenSend_def wait_loop_def stamp_def wait_condition_def SendState_def
      Let_def)

section \<open>The settle sequence\<close>

lemma sends_settle_events: "set es \<subseteq> {EvStep, EvSoftReset} \<Longrightarrow> sends es = 0"
  by (induction es rule: sends.induct) auto

lemma FlushSensors_events:
  "\<exists>es. trace (snd (FlushSensors env fuel p)) = trace p @ es
        \<and> set es \<subseteq> {EvStep, EvSoftReset}
        \<and> steps (world (snd (FlushSensors env fuel p))) = steps (world p) + count_list es EvStep"
proof -
  from FlushSensors_loop_events [of env fuel "SoftReset p"] obtain es where
    es: "trace (snd (FlushSensors env fuel p)) = trace (SoftReset p) @ es"
    "set es \<subseteq> {EvStep, EvSoftReset}"
    "steps (world (snd (FlushSensors env fuel p))) = steps (world (SoftReset p)) + count_list es EvStep"
    unfolding FlushSensors_def by blast
  then show ?thesis
    by (intro exI [of _ "EvSoftReset # es"]) (simp add: SoftReset_def emit_def)
qed

text \<open>
  C9. On the RESET branch, once \<^verbatim>\<open>FlushSensors\<close> has returned, the pass stamps the
  state with the simulation time and the status OK and sends it once. Between the
  reception and that datagram the pass only steps and soft-resets the world: it arms no
  barrier and publishes no motor command.
\<close>

theorem LoopIteration_RESET_reply:
  assumes "world_control (snd (ParseFromString env (take 1024 dgram))) = RESET"
    and "FlushSensors env fuel (p\<lparr>action := snd (ParseFromString env (take 1024 dgram))\<rparr>)
           = (Settled, p1)"
  shows "\<exists>p' es. LoopIteration env fuel (Some dgram) p = (Replied, p')
           \<and> trace p' = trace p @ es @ [EvSend (state p')]
           \<and> set es \<subseteq> {EvStep, EvSoftReset}
           \<and> sends (trace p') = sends (trace p) + 1
           \<and> status_code (state p') = OK
           \<and> sim_time (state p') = simTime (world p1)
           \<and> world p' = world p1"
proof -
  let ?p0 = "p\<lparr>action := snd (ParseFromString env (take 1024 dgram))\<rparr>"
  let ?p' = "SendState (stamp p1)"
  from FlushSensors_events [of env fuel ?p0] assms(2) obtain es where
    es: "trace p1 = trace p @ es" "set es \<subseteq> {EvStep, EvSoftReset}"
    by auto
  have run: "LoopIteration env fuel (Some dgram) p = (Replied, ?p')"
    using assms by (simp add: LoopIteration_def ReceiveAction_def)
  have tr: "trace ?p' = trace p @ es @ [EvSend (state ?p')]"
    using es(1) by (simp add: SendState_def emit_def stamp_def)
  have "sends (trace ?p') = sends (trace p) + 1"
    unfolding tr using sends_settle_events [OF es(2)] by (simp add: sends_append)
  moreover have "status_code (state ?p') = OK" "sim_time (state ?p') = simTime (world p1)"
    "world ?p' = world p1"
    by (simp_all add: SendState_def emit_def stamp_def)
  ultimately show ?thesis
    using run tr es(2) by blast
qed

theorem LoopIteration_RESET_reply_witness:
  "\<exists>p'. LoopIteration
            (sample_env \<lparr>world_control = RESET, motor = []\<rparr> (\<lambda>n. [ImuMsg (sample_imu 0)]))
            (Suc (Suc 0)) (Some []) sample_plugin = (Replied, p')
        \<and> sends (trace p') = 1 \<and> status_code (state p') = OK"
proof -
  let ?a = "\<lparr>world_control = RESET, motor = []\<rparr>"
  let ?env = "sample_env ?a (\<lambda>n. [ImuMsg (sample_imu 0)])"
  have h1: "world_control (snd (ParseFromString ?env (take 1024 []))) = RESET"
    by (simp add: sample_env_def)
  have "fst (FlushSensors ?env (Suc (Suc 0))
          (sample_plugin\<lparr>action := snd (ParseFromString ?env (take 1024 []))\<rparr>)) = Settled"
    by (simp add: FlushSensors_def SoftReset_def emit_def sample_env_def sample_plugin_def
        FlightControllerPlugin_new_def State_default_def unsettled_def exceeds_def or_else_def
        rf_get_def error_def world_Step_def ImuCallback_def rf_set_def sample_imu_def Let_def
        notify_all_def to_float_0 to_float_1)
  then obtain p1 where h2: "FlushSensors ?env (Suc (Suc 0))
          (sample_plugin\<lparr>action := snd (ParseFromString ?env (take 1024 []))\<rparr>) = (Settled, p1)"
    by (metis prod.collapse)
  from LoopIteration_RESET_reply [OF h1 h2] show ?thesis
    by (auto simp: sample_plugin_def FlightControllerPlugin_new_def)
qed

section \<open>Settling after a reset\<close>

lemma length_3: "length xs = 3 \<Longrightarrow> \<exists>a b c. xs = [a, b, c]"
  by (auto simp: eval_nat_numeral length_Suc_conv)

lemma length_4: "length xs = 4 \<Longrightarrow> \<exists>a b c d. xs = [a, b, c, d]"
  by (auto simp: eval_nat_numeral length_Suc_conv)

lemma ImuCallback_sized:
  assumes "state_sized n (state p)"
  shows "ImuCallback m p =
     Some (p\<lparr>state := (state p)
             \<lparr>imu_angular_velocity_rpy :=
                [to_float (angular_velocity_x m), to_float (angular_velocity_y m),
                 to_float (angular_velocity_z m)],
              imu_orientation_quat :=
                [to_float (orientation_w m), to_float (orientation_x m),
                 to_float (orientation_y m), to_float (orientation_z m)],
              imu_linear_acceleration_xyz :=
                [to_float (linear_acceleration_x m), to_float (linear_acceleration_y m),
                 to_float (linear_acceleration_z m)]\<rparr>,
            sensorCallbackCount := sensorCallbackCount p + 1,
            callbackCondition := False\<rparr>)"
proof -
  from assms have l: "length (imu_angular_velocity_rpy (state p)) = 3"
    "length (imu_orientation_quat (state p)) = 4"
    "length (imu_linear_acceleration_xyz (state p)) = 3"
    by (simp_all add: state_sized_def)
  from length_3 [OF l(1)] obtain a b c where
    1: "imu_angular_velocity_rpy (state p) = [a, b, c]" by blast
  from length_4 [OF l(2)] obtain d e f g where
    2: "imu_orientation_quat (state p) = [d, e, f, g]" by blast
  from length_3 [OF l(3)] obtain h i j where
    3: "imu_linear_acceleration_xyz (state p) = [h, i, j]" by blast
  show ?thesis
    by (simp add: ImuCallback_def Let_def 1 2 3 rf_set_def notify_all_def)
qed

lemma unsettled_triple:
  "imu_angular_velocity_rpy st = [x, y, z] \<Longrightarrow>
     unsettled st = Some (\<bar>x\<bar> > error \<or> \<bar>y\<bar> > error \<or> \<bar>z\<bar> > error)"
  by (simp add: unsettled_def exceeds_def or_else_def rf_get_def Let_def split: bool.splits)

text \<open>
  The callbacks of one tick, on a state of the sizes of \<^verbatim>\<open>InitState\<close>: all of them
  return, the sizes stay, and the angular velocity is the one of the last IMU message, as
  stored.
\<close>

lemma deliver_sized:
  assumes "state_sized n (state p)" and "esc_in_range n msgs"
  shows "\<exists>p'. deliver msgs p = Some p' \<and> state_sized n (state p')
           \<and> (imu_msgs msgs = [] \<longrightarrow>
                 imu_angular_velocity_rpy (state p') = imu_angular_velocity_rpy (state p))
           \<and> (imu_msgs msgs \<noteq> [] \<longrightarrow>
                 unsettled (state p') = Some (\<not> stored_within_error (last (imu_msgs msgs))))"
  using assms
proof (induction msgs arbitrary: p)
  case Nil
  then show ?case by simp
next
  case (Cons msg msgs)
  show ?case
  proof (cases msg)
    case (ImuMsg m)
    let ?q = "p\<lparr>state := (state p)
             \<lparr>imu_angular_velocity_rpy :=
                [to_float (angular_velocity_x m), to_float (angular_velocity_y m),
                 to_float (angular_velocity_z m)],
              imu_orientation_quat :=
                [to_float (orientation_w m), to_float (orientation_x m),
                 to_float (orientation_y m), to_float (orientation_z m)],
              imu_linear_acceleration_xyz :=
                [to_float (linear_acceleration_x m), to_float (linear_acceleration_y m),
                 to_float (linear_acceleration_z m)]\<rparr>,
            sensorCallbackCount := sensorCallbackCount p + 1,
            callbackCondition := False\<rparr>"
    have cb: "callback msg p = Some ?q"
      using ImuCallback_sized [OF Cons.prems(1), of m] ImuMsg by simp
    have sz: "state_sized n (state ?q)"
      using Cons.prems(1) by (simp add: state_sized_def)
    have rg: "esc_in_range n msgs"
      using Cons.prems(2) ImuMsg by simp
    have u: "unsettled (state ?q) = Some (\<not> stored_within_error m)"
      unfolding stored_within_error_def not_not by (rule unsettled_triple) simp
    from Cons.IH [OF sz rg] obtain p' where
      p': "deliver msgs ?q = Some p'" "state_sized n (state p')"
      "imu_msgs msgs = [] \<longrightarrow>
         imu_angular_velocity_rpy (state p') = imu_angular_velocity_rpy (state ?q)"
      "imu_msgs msgs \<noteq> [] \<longrightarrow>
         unsettled (state p') = Some (\<not> stored_within_error (last (imu_msgs msgs)))"
      by blast
    have "unsettled (state p') = Some (\<not> stored_within_error (last (imu_msgs (msg # msgs))))"
    proof (cases "imu_msgs msgs = []")
      case True
      with p'(3) have "imu_angular_velocity_rpy (state p') = imu_angular_velocity_rpy (state ?q)"
        by blast
      then have "unsettled (state p') = unsettled (state ?q)"
        by (simp add: unsettled_def)
      with u True ImuMsg show ?thesis by simp
    next
      case False
      with p'(4) ImuMsg show ?thesis by simp
    qed
    with cb p'(1,2) ImuMsg show ?thesis by simp
  next
    case (EscMsg m)
    from Cons.prems(2) EscMsg have i: "unat (esc_id m) < n" and rg: "esc_in_range n msgs"
      by simp_all
    let ?q = "p\<lparr>state := (state p)
        \<lparr>esc_motor_angular_velocity :=
           (esc_motor_angular_velocity (state p))[unat (esc_id m) := motor_speed m],
         esc_temperature := (esc_temperature (state p))[unat (esc_id m) := temperature m],
         esc_current := (esc_current (state p))[unat (esc_id m) := current m],
         esc_voltage := (esc_voltage (state p))[unat (esc_id m) := voltage m]\<rparr>,
        sensorCallbackCount := sensorCallbackCount p + 1,
        callbackCondition := False\<rparr>"
    have cb: "callback msg p = Some ?q"
      using i Cons.prems(1) EscMsg by (simp add: EscSensorCallback_Some state_sized_def)
    have sz: "state_sized n (state ?q)"
      using Cons.prems(1) by (simp add: state_sized_def)
    from Cons.IH [OF sz rg] obtain p' where
      p': "deliver msgs ?q = Some p'" "state_sized n (state p')"
      "imu_msgs msgs = [] \<longrightarrow>
         imu_angular_velocity_rpy (state p') = imu_angular_velocity_rpy (state ?q)"
      "imu_msgs msgs \<noteq> [] \<longrightarrow>
         unsettled (state p') = Some (\<not> stored_within_error (last (imu_msgs msgs)))"
      by blast
    with cb EscMsg show ?thesis by simp
  qed
qed

lemma FlushSensors_loop_settles:
  assumes "state_sized n (state p)"
    and "unsettled (state p) = Some (0 < M)"
    and "\<forall>i. 1 \<le> i \<and> i \<le> M \<longrightarrow>
           esc_in_range n (sensor_replies env (steps (world p) + i))
           \<and> imu_msgs (sensor_replies env (steps (world p) + i)) \<noteq> []
           \<and> (stored_within_error (last (imu_msgs (sensor_replies env (steps (world p) + i))))
                \<longleftrightarrow> i = M)"
    and "M < fuel"
  shows "\<exists>p'. FlushSensors_loop env fuel p = (Settled, p')
           \<and> steps (world p') = steps (world p) + M
           \<and> unsettled (state p') = Some False"
  using assms
proof (induction M arbitrary: p fuel)
  case 0
  then obtain f where "fuel = Suc f" by (cases fuel) auto
  with 0 show ?case by simp
next
  case (Suc M)
  then obtain f where f: "fuel = Suc f" "M < f" by (cases fuel) auto
  let ?p1 = "world_Step p"
  let ?msgs = "sensor_replies env (steps (world p) + Suc 0)"
  have p1: "state ?p1 = state p" "steps (world ?p1) = steps (world p) + Suc 0"
    by (simp_all add: world_Step_def emit_def)
  from Suc.prems(3) have rep: "esc_in_range n ?msgs" "imu_msgs ?msgs \<noteq> []"
    and tol: "stored_within_error (last (imu_msgs ?msgs)) \<longleftrightarrow> M = 0"
    by auto
  from deliver_sized [of n ?p1 ?msgs] Suc.prems(1) rep p1 obtain p2 where
    p2: "deliver ?msgs ?p1 = Some p2" "state_sized n (state p2)"
    "unsettled (state p2) = Some (\<not> stored_within_error (last (imu_msgs ?msgs)))"
    by auto
  let ?p3 = "SoftReset p2"
  have step: "FlushSensors_loop env fuel p = FlushSensors_loop env f ?p3"
    using Suc.prems(2) p2(1) p1 by (simp add: f Let_def)
  have st3: "state ?p3 = state p2" "steps (world ?p3) = steps (world p) + Suc 0"
    using deliver_frame [OF p2(1)] p1 by (simp_all add: SoftReset_def emit_def)
  have u3: "unsettled (state ?p3) = Some (0 < M)"
    using p2(3) tol by (simp only: st3) simp
  have sz3: "state_sized n (state ?p3)"
    using p2(2) by (simp only: st3)
  have rest: "\<forall>i. 1 \<le> i \<and> i \<le> M \<longrightarrow>
           esc_in_range n (sensor_replies env (steps (world ?p3) + i))
           \<and> imu_msgs (sensor_replies env (steps (world ?p3) + i)) \<noteq> []
           \<and> (stored_within_error (last (imu_msgs (sensor_replies env (steps (world ?p3) + i))))
                \<longleftrightarrow> i = M)"
  proof (intro allI impI)
    fix i assume "1 \<le> i \<and> i \<le> M"
    then have "1 \<le> Suc i \<and> Suc i \<le> Suc M" by simp
    with Suc.prems(3) have "esc_in_range n (sensor_replies env (steps (world p) + Suc i))
           \<and> imu_msgs (sensor_replies env (steps (world p) + Suc i)) \<noteq> []
           \<and> (stored_within_error (last (imu_msgs (sensor_replies env (steps (world p) + Suc i))))
                \<longleftrightarrow> Suc i = Suc M)"
      by blast
    then show "esc_in_range n (sensor_replies env (steps (world ?p3) + i))
           \<and> imu_msgs (sensor_replies env (steps (world ?p3) + i)) \<noteq> []
           \<and> (stored_within_error (last (imu_msgs (sensor_replies env (steps (world ?p3) + i))))
                \<longleftrightarrow> i = M)"
      by (simp only: st3) simp
  qed
  from Suc.IH [OF sz3 u3 rest f(2)] obtain p' where
    "FlushSensors_loop env f ?p3 = (Settled, p')"
    "steps (world p') = steps (world ?p3) + M" "unsettled (state p') = Some False"
    by blast
  then show ?case
    unfolding step by (simp only: st3) simp
qed

lemma unsettled_stamp: "unsettled (state (SendState (stamp p))) = unsettled (state p)"
  by (simp add: unsettled_def SendState_def stamp_def emit_def)

text \<open>
  C6, as the code has it. Let the fields of the state have the sizes that
  \<^verbatim>\<open>InitState\<close> gives them, and let the simulator answer the \<open>i\<close>-th tick of the
  settle sequence with sensor messages whose ESC ids are in range and whose last IMU
  message has an angular velocity that, narrowed to the \<^verbatim>\<open>float\<close> of the state, is
  within 0.017 of zero on all three axes exactly for \<open>i = M\<close> (for \<open>M = 0\<close>: the state
  is within the tolerance already). Then, with any bound above \<open>M\<close> on the passes of
  its loop, the RESET pass returns, has called \<^verbatim>\<open>Step(1)\<close> exactly \<open>M\<close> times, and
  has sent exactly one state, with the status OK and an angular velocity within the
  tolerance.
\<close>

theorem LoopIteration_RESET_settles:
  assumes "world_control (snd (ParseFromString env (take 1024 dgram))) = RESET"
    and "state_sized n (state p)"
    and "unsettled (state p) = Some (0 < M)"
    and "\<forall>i. 1 \<le> i \<and> i \<le> M \<longrightarrow>
           esc_in_range n (sensor_replies env (steps (world p) + i))
           \<and> imu_msgs (sensor_replies env (steps (world p) + i)) \<noteq> []
           \<and> (stored_within_error (last (imu_msgs (sensor_replies env (steps (world p) + i))))
                \<longleftrightarrow> i = M)"
    and "M < fuel"
  shows "\<exists>p' es. LoopIteration env fuel (Some dgram) p = (Replied, p')
           \<and> trace p' = trace p @ es @ [EvSend (state p')]
           \<and> set es \<subseteq> {EvStep, EvSoftReset}
           \<and> count_list es EvStep = M
           \<and> steps (world p') = steps (world p) + M
           \<and> sends (trace p') = sends (trace p) + 1
           \<and> status_code (state p') = OK
           \<and> unsettled (state p') = Some False"
proof -
  let ?p0 = "p\<lparr>action := snd (ParseFromString env (take 1024 dgram))\<rparr>"
  let ?q = "SoftReset ?p0"
  have q: "state ?q = state p" "steps (world ?q) = steps (world p)"
    by (simp_all add: SoftReset_def emit_def)
  have "\<exists>p1. FlushSensors_loop env fuel ?q = (Settled, p1)
           \<and> steps (world p1) = steps (world ?q) + M
           \<and> unsettled (state p1) = Some False"
    using assms(2-5)
      FlushSensors_loop_settles [where p = ?q and M = M and env = env and n = n and fuel = fuel]
    by (simp only: q)
  then obtain p1 where p1: "FlushSensors env fuel ?p0 = (Settled, p1)"
    "steps (world p1) = steps (world p) + M" "unsettled (state p1) = Some False"
    by (auto simp: FlushSensors_def q)
  let ?p' = "SendState (stamp p1)"
  from FlushSensors_events [of env fuel ?p0] p1(1) obtain es where
    es: "trace p1 = trace p @ es" "set es \<subseteq> {EvStep, EvSoftReset}"
    "steps (world p1) = steps (world p) + count_list es EvStep"
    by auto
  have run: "LoopIteration env fuel (Some dgram) p = (Replied, ?p')"
    using assms(1) p1(1) by (simp add: LoopIteration_def ReceiveAction_def)
  have tr: "trace ?p' = trace p @ es @ [EvSend (state ?p')]"
    using es(1) by (simp add: SendState_def emit_def stamp_def)
  have "sends (trace ?p') = sends (trace p) + 1"
    unfolding tr using sends_settle_events [OF es(2)] by (simp add: sends_append)
  moreover have "status_code (state ?p') = OK" "steps (world ?p') = steps (world p) + M"
    using p1(2) by (simp_all add: SendState_def emit_def stamp_def)
  moreover have "count_list es EvStep = M"
    using es(3) p1(2) by simp
  moreover have "unsettled (state ?p') = Some False"
    using p1(3) by (simp only: unsettled_stamp)
  ultimately show ?thesis
    using run tr es(2) by blast
qed

theorem LoopIteration_RESET_settles_witness:
  "\<exists>p' es. LoopIteration
            (sample_env \<lparr>world_control = RESET, motor = []\<rparr>
               (\<lambda>n. [EscMsg (sample_esc 0), ImuMsg (sample_imu (if n = 1 then 1 / 2 else 0)),
                      EscMsg (sample_esc 1)]))
            3 (Some []) sample_plugin = (Replied, p')
        \<and> trace p' = es @ [EvSend (state p')]
        \<and> count_list es EvStep = 2
        \<and> steps (world p') = 2
        \<and> status_code (state p') = OK
        \<and> unsettled (state p') = Some False"
proof -
  let ?env = "sample_env \<lparr>world_control = RESET, motor = []\<rparr>
               (\<lambda>n. [EscMsg (sample_esc 0), ImuMsg (sample_imu (if n = 1 then 1 / 2 else 0)),
                      EscMsg (sample_esc 1)])"
  have h1: "world_control (snd (ParseFromString ?env (take 1024 []))) = RESET"
    by (simp add: sample_env_def)
  have h2: "state_sized 2 (state sample_plugin)"
    and h3: "unsettled (state sample_plugin) = Some (0 < (2::nat))"
    by (simp_all add: sample_plugin_def FlightControllerPlugin_new_def State_default_def
        state_sized_def unsettled_def exceeds_def or_else_def rf_get_def error_def)
  have h4: "\<forall>i. 1 \<le> i \<and> i \<le> 2 \<longrightarrow>
           esc_in_range 2 (sensor_replies ?env (steps (world sample_plugin) + i))
           \<and> imu_msgs (sensor_replies ?env (steps (world sample_plugin) + i)) \<noteq> []
           \<and> (stored_within_error
                 (last (imu_msgs (sensor_replies ?env (steps (world sample_plugin) + i))))
                \<longleftrightarrow> i = 2)"
    by (auto simp: sample_env_def sample_plugin_def FlightControllerPlugin_new_def
        stored_within_error_def sample_imu_def sample_esc_def error_def to_float_0
        to_float_half)
  have h5: "(2::nat) < 3" by simp
  have s: "trace sample_plugin = []" "steps (world sample_plugin) = 0"
    by (simp_all add: sample_plugin_def FlightControllerPlugin_new_def)
  from LoopIteration_RESET_settles [OF h1 h2 h3 h4 h5] obtain p' es where
    "LoopIteration ?env 3 (Some []) sample_plugin = (Replied, p')"
    "trace p' = trace sample_plugin @ es @ [EvSend (state p')]"
    "count_list es EvStep = 2"
    "steps (world p') = steps (world sample_plugin) + 2"
    "status_code (state p') = OK"
    "unsettled (state p') = Some False"
    by blast
  then show ?thesis
    by (intro exI [of _ p'] exI [of _ es]) (simp add: s)
qed

text \<open>
  C6 as stated fails for a reading that is within the tolerance and whose nearest
  \<^verbatim>\<open>float\<close> is not. The simulator answers every tick with an angular velocity of
  about 0.016999999995 on the first axis and 0 on the others, so the readings are within
  0.017 after one tick; the callback stores the float 0.0170000009, the settle check
  never passes, and with the bound 3 the RESET pass has stepped the world three times
  and sent nothing.
\<close>

theorem LoopIteration_RESET_settles_counterexample:
  "within_error (sample_imu near_error)
   \<and> unsettled (state sample_plugin) = Some True
   \<and> fst (LoopIteration near_error_env (Suc (Suc (Suc 0))) (Some []) sample_plugin) = OutOfFuel
   \<and> steps (world (snd (LoopIteration near_error_env (Suc (Suc (Suc 0))) (Some []) sample_plugin))) = 3
   \<and> sends (trace (snd (LoopIteration near_error_env (Suc (Suc (Suc 0))) (Some []) sample_plugin))) = 0"
proof (intro conjI)
  show "within_error (sample_imu near_error)"
    by (simp add: within_error_def sample_imu_def near_error_def error_def)
  show "unsettled (state sample_plugin) = Some True"
    by (simp add: sample_plugin_def FlightControllerPlugin_new_def State_default_def
        unsettled_def exceeds_def or_else_def rf_get_def error_def)
  have run: "LoopIteration near_error_env (Suc (Suc (Suc 0))) (Some []) sample_plugin =
      (OutOfFuel,
       sample_plugin
         \<lparr>world := \<lparr>simTime = 0, steps = 3, paused = False\<rparr>,
          sensorCallbackCount := 3,
          state := (state sample_plugin)
            \<lparr>imu_angular_velocity_rpy := [9126806 / 536870912, 0, 0],
             imu_orientation_quat := [1, 0, 0, 0]\<rparr>,
          action := \<lparr>world_control = RESET, motor = []\<rparr>,
          trace := [EvSoftReset, EvStep, EvSoftReset, EvStep, EvSoftReset, EvStep,
                    EvSoftReset]\<rparr>)"
    by (simp add: LoopIteration_def ReceiveAction_def near_error_env_def sample_env_def
        FlushSensors_def SoftReset_def emit_def sample_plugin_def
        FlightControllerPlugin_new_def State_default_def unsettled_def exceeds_def
        or_else_def rf_get_def error_def world_Step_def ImuCallback_def rf_set_def
        sample_imu_def Let_def notify_all_def to_float_0 to_float_1 to_float_near_error)
  show "fst (LoopIteration near_error_env (Suc (Suc (Suc 0))) (Some []) sample_plugin) = OutOfFuel"
    by (simp add: run)
  show "steps (world (snd (LoopIteration near_error_env (Suc (Suc (Suc 0))) (Some []) sample_plugin))) = 3"
    by (simp add: run)
  show "sends (trace (snd (LoopIteration near_error_env (Suc (Suc (Suc 0))) (Some []) sample_plugin))) = 0"
    by (simp add: run)
qed

section \<open>Bootstrap\<close>

lemma LoadVars_failure:
  assumes "sitl_port env = Some port"
    and "\<not> Bind env port \<or> env_digital_twin_sdf env = None \<or> env_num_motors env = None
         \<or> env_supported_sensors env = None"
    and "LoadVars env p = Some p1"
  shows "\<exists>msg. trace p1 = trace p @ [EvGzerr msg]"
    and "supportedSensors p1 = supportedSensors p"
  using assms
  by (auto simp: LoadVars_def Let_def emit_def split: option.splits if_splits)

lemma InitState_Some:
  "0 \<le> numActuators p \<Longrightarrow>
     \<exists>q. InitState p = Some q \<and> trace q = trace p \<and> world q = world p"
  by (simp add: InitState_def actuator_indices_def Let_def)

text \<open>
  C4. The code does not do what the claim says. When the bind fails or one of the
  required variables is missing, \<^verbatim>\<open>LoadVars\<close> logs its diagnostic and returns, and
  \<^verbatim>\<open>Load\<close> goes on: with no sensor enabled it subscribes to nothing, and it
  advertises the command topic, pauses the world and starts the control-loop thread.
\<close>

theorem Load_starts_loop_after_failure:
  assumes "sitl_port env = Some port"
    and "\<not> Bind env port \<or> env_digital_twin_sdf env = None \<or> env_num_motors env = None
         \<or> env_supported_sensors env = None"
    and "LoadVars env p = Some p1"
    and "0 \<le> numActuators p1"
    and "supportedSensors p = []"
  shows "(\<exists>msg. trace p1 = trace p @ [EvGzerr msg])
         \<and> (\<exists>p'. Load env p = Some p'
               \<and> trace p' = trace p1 @ [EvAdvertise, EvSetPaused, EvStartLoopThread])"
proof
  show "\<exists>msg. trace p1 = trace p @ [EvGzerr msg]"
    by (rule LoadVars_failure(1) [OF assms(1-3)])
  have s: "supportedSensors p1 = []"
    using LoadVars_failure(2) [OF assms(1-3)] assms(5) by simp
  have c: "CalculateCallbackCount p1 = p1"
    by (simp add: CalculateCallbackCount_def s)
  from InitState_Some [OF assms(4)] obtain p4 where
    p4: "InitState p1 = Some p4" "trace p4 = trace p1"
    by blast
  have "Load env p = Some (emit EvStartLoopThread (emit EvSetPaused
          ((emit EvAdvertise p4)\<lparr>world := (world (emit EvAdvertise p4))\<lparr>paused := True\<rparr>\<rparr>)))"
    by (simp add: Load_def assms(3) c s p4 Let_def)
  moreover have "trace (emit EvStartLoopThread (emit EvSetPaused
          ((emit EvAdvertise p4)\<lparr>world := (world (emit EvAdvertise p4))\<lparr>paused := True\<rparr>\<rparr>)))
        = trace p1 @ [EvAdvertise, EvSetPaused, EvStartLoopThread]"
    by (simp add: emit_def p4)
  ultimately show "\<exists>p'. Load env p = Some p'
               \<and> trace p' = trace p1 @ [EvAdvertise, EvSetPaused, EvStartLoopThread]"
    by blast
qed

theorem Load_starts_loop_after_failure_witness:
  "sitl_port port_in_use_env = Some 9002
   \<and> \<not> Bind port_in_use_env 9002
   \<and> (\<exists>p'. Load port_in_use_env FlightControllerPlugin_new = Some p'
         \<and> trace p' = [EvGzerr ''failed to bind, aborting plugin'', EvAdvertise, EvSetPaused,
                        EvStartLoopThread])"
proof -
  let ?p1 = "emit (EvGzerr ''failed to bind, aborting plugin'') FlightControllerPlugin_new"
  have h1: "sitl_port port_in_use_env = Some 9002"
    by (simp add: sitl_port_def port_in_use_env_def)
  have nb: "\<not> Bind port_in_use_env 9002"
    by (simp add: Bind_def port_in_use_env_def)
  then have h2: "\<not> Bind port_in_use_env 9002 \<or> env_digital_twin_sdf port_in_use_env = None
      \<or> env_num_motors port_in_use_env = None \<or> env_supported_sensors port_in_use_env = None"
    by blast
  have h3: "LoadVars port_in_use_env FlightControllerPlugin_new = Some ?p1"
    using h1 nb by (simp add: LoadVars_def)
  have h4: "0 \<le> numActuators ?p1"
    and h5: "supportedSensors FlightControllerPlugin_new = []"
    and t: "trace ?p1 = [EvGzerr ''failed to bind, aborting plugin'']"
    by (simp_all add: emit_def FlightControllerPlugin_new_def)
  from Load_starts_loop_after_failure [OF h1 h2 h3 h4 h5] h1 nb show ?thesis
    by (simp add: t)
qed

end
